theory Spec2Isabelle
  imports Main
begin

text \<open>
  The feed reader of \<open>rss_reader_custom_parser.py\<close>: the fetcher \<open>fetch_feed_content\<close>
  and the parser \<open>parse_feed_custom\<close> with its helper \<open>find_element_text\<close>. The
  libraries they call are inputs of the model: \<open>requests.get\<close> and the XML parser
  \<open>ET.fromstring\<close> are parameters, and the lookups \<open>find\<close> and \<open>findall\<close> of
  \<open>xml.etree.ElementPath\<close> are modelled for the paths the program passes. A \<open>return None\<close>
  is the left summand of the result, with the failure that names the message printed; an
  exception is the left summand inside the \<open>try\<close> block.
\<close>

section \<open>Strings and truthiness\<close>

text \<open>
  Python \<open>str\<close> values are modelled as \<open>string\<close>; a \<open>char\<close> stands for a code point
  below 256. \<open>isspace\<close> lists the code points below 256 for which Python's
  \<open>str.isspace\<close> holds: TAB, LF, VT, FF, CR, FS, GS, RS, US, SPACE, NEL and NBSP.
\<close>

definition isspace :: "char \<Rightarrow> bool" where
  "isspace c = ((of_char c :: nat) \<in> {9, 10, 11, 12, 13, 28, 29, 30, 31, 32, 133, 160})"

text \<open>\<open>s.strip()\<close>: drop the leading and the trailing whitespace.\<close>

definition strip :: "string \<Rightarrow> string" where
  "strip s = rev (dropWhile isspace (rev (dropWhile isspace s)))"

text \<open>\<open>s.endswith(suf)\<close>.\<close>

definition endswith :: "string \<Rightarrow> string \<Rightarrow> bool" where
  "endswith s suf = (length suf \<le> length s \<and> drop (length s - length suf) s = suf)"

text \<open>
  Truthiness of an optional string, as in \<open>if href:\<close> or \<open>not link.get('rel')\<close>:
  \<open>None\<close> and the empty string are false.
\<close>

definition truthy :: "string option \<Rightarrow> bool" where
  "truthy v = (case v of None \<Rightarrow> False | Some s \<Rightarrow> s \<noteq> [])"

section \<open>Element trees\<close>

text \<open>
  An \<open>xml.etree.ElementTree.Element\<close> as the program reads it: the tag (with a namespace
  written \<open>{uri}name\<close>), the attribute dictionary, the text before the first child
  (\<open>None\<close> when there is none) and the children in document order.
\<close>

datatype element =
  Element (tag: string) (attrib: "(string \<times> string) list") (etext: "string option")
    (children: "element list")

text \<open>\<open>elem.get(key)\<close>: the attribute's value, or \<open>None\<close>.\<close>

definition get :: "element \<Rightarrow> string \<Rightarrow> string option" where
  "get e k = map_of (attrib e) k"

text \<open>
  The exceptions the body of \<open>parse_feed_custom\<close> can meet, and the classes its
  handlers name. \<open>ET.ParseError\<close> is a subclass of \<open>SyntaxError\<close>, which is a subclass
  of \<open>Exception\<close>; \<open>OtherException\<close> is any further \<open>Exception\<close> the XML parser may raise.
\<close>

datatype exn = ParseError | SyntaxError | OtherException

datatype pyclass = ParseErrorClass | SyntaxErrorClass | ExceptionClass

fun isinstance :: "exn \<Rightarrow> pyclass \<Rightarrow> bool" where
  "isinstance ParseError c = True"
| "isinstance SyntaxError c = (c \<noteq> ParseErrorClass)"
| "isinstance OtherException c = (c = ExceptionClass)"

type_synonym nsmap = "string \<rightharpoonup> string"

text \<open>
  \<open>ElementPath.xpath_tokenizer\<close> on a path that is one name, as every path of the
  program is (\<open>'atom:title'\<close>, \<open>'item'\<close>, ...): a name with a colon is split at the first
  colon and its prefix looked up in the namespace map, giving \<open>{uri}local\<close>; a prefix
  that is not in the map (also when the map is empty) raises \<open>SyntaxError\<close>. A name
  without a colon is qualified by the default namespace (key \<open>''\<close>) when there is one.
\<close>

definition xpath_tag :: "nsmap \<Rightarrow> string \<Rightarrow> exn + string" where
  "xpath_tag namespaces path =
     (if path \<noteq> [] \<and> hd path \<noteq> CHR ''{'' then
        if CHR '':'' \<in> set path then
          (case namespaces (takeWhile (\<lambda>c. c \<noteq> CHR '':'') path) of
             None \<Rightarrow> Inl SyntaxError
           | Some uri \<Rightarrow>
               Inr (''{'' @ uri @ ''}'' @ drop 1 (dropWhile (\<lambda>c. c \<noteq> CHR '':'') path)))
        else
          (case namespaces [] of
             None \<Rightarrow> Inr path
           | Some d \<Rightarrow> if d \<noteq> [] then Inr (''{'' @ d @ ''}'' @ path) else Inr path)
      else Inr path)"

text \<open>
  \<open>ElementPath.prepare_child\<close>: which child tags a qualified name selects. \<open>{*}name\<close>
  selects \<open>name\<close> in any namespace or in none, \<open>{}name\<close> is \<open>name\<close>, any other name
  selects the children whose tag equals it. (The local names of the program are never
  \<open>*\<close>.)
\<close>

definition tag_selects :: "string \<Rightarrow> string \<Rightarrow> bool" where
  "tag_selects t el_tag =
     (if take 3 t = ''{*}'' then el_tag = drop 3 t \<or> endswith el_tag (drop 2 t)
      else if take 2 t = ''{}'' then el_tag = drop 2 t
      else el_tag = t)"

definition children_matching :: "string \<Rightarrow> element \<Rightarrow> element list" where
  "children_matching t e = filter (\<lambda>c. tag_selects t (tag c)) (children e)"

text \<open>\<open>elem.findall(path, namespaces)\<close> and \<open>elem.find(path, namespaces)\<close>.\<close>

definition findall :: "element \<Rightarrow> string \<Rightarrow> nsmap \<Rightarrow> exn + element list" where
  "findall e path namespaces =
     (case xpath_tag namespaces path of
        Inl x \<Rightarrow> Inl x
      | Inr t \<Rightarrow> Inr (children_matching t e))"

definition find_elem :: "element \<Rightarrow> string \<Rightarrow> nsmap \<Rightarrow> exn + element option" where
  "find_elem e path namespaces =
     (case findall e path namespaces of
        Inl x \<Rightarrow> Inl x
      | Inr cs \<Rightarrow> Inr (case cs of [] \<Rightarrow> None | c # _ \<Rightarrow> Some c))"

section \<open>The custom parser\<close>

text \<open>
  \<open>find_element_text\<close>:
  \<^verbatim>\<open>element = parent_element.find(tag_name, namespaces)\<close>
  \<^verbatim>\<open>return element.text.strip() if element is not None and element.text else None\<close>
\<close>

definition find_element_text :: "element \<Rightarrow> string \<Rightarrow> nsmap \<Rightarrow> exn + string option" where
  "find_element_text parent_element tag_name namespaces =
     (case find_elem parent_element tag_name namespaces of
        Inl x \<Rightarrow> Inl x
      | Inr None \<Rightarrow> Inr None
      | Inr (Some el) \<Rightarrow>
          Inr (case etext el of
                 None \<Rightarrow> None
               | Some t \<Rightarrow> if t \<noteq> [] then Some (strip t) else None))"

text \<open>
  The dictionaries with the keys \<open>title\<close>, \<open>link\<close> and \<open>description\<close> (\<open>parsed['feed']\<close>
  and every \<open>entry_data\<close>), and the dictionary the parser returns.
\<close>

record fields =
  title :: "string option"
  link :: "string option"
  description :: "string option"

record parsed =
  feed :: fields
  entries :: "fields list"

text \<open>
  The namespace detection: when the root tag contains \<open>}\<close>, the text between its first
  character and the first \<open>}\<close> is registered under the prefix \<open>atom\<close>.
\<close>

definition namespaces_of :: "element \<Rightarrow> nsmap" where
  "namespaces_of root =
     (if CHR ''}'' \<in> set (tag root)
      then [''atom'' \<mapsto> drop 1 (takeWhile (\<lambda>c. c \<noteq> CHR ''}'') (tag root))]
      else Map.empty)"

definition is_atom :: "element \<Rightarrow> bool" where
  "is_atom root = (namespaces_of root ''atom'' \<noteq> None \<or> endswith (tag root) ''feed'')"

definition is_rss :: "element \<Rightarrow> bool" where
  "is_rss root = endswith (tag root) ''rss''"

text \<open>
  The link selection loop, with \<open>primary\<close> the variable \<open>primary_feed_link\<close> or
  \<open>primary_item_link\<close>:
  \<^verbatim>\<open>for link in links:\<close>
  \<^verbatim>\<open>    if link.get('rel') == 'alternate' or not link.get('rel'):\<close>
  \<^verbatim>\<open>        primary = link.get('href')\<close>
  \<^verbatim>\<open>        if primary: break\<close>
  \<^verbatim>\<open>if not primary and links: primary = links[0].get('href')\<close>
\<close>

fun link_loop :: "string option \<Rightarrow> element list \<Rightarrow> string option" where
  "link_loop primary [] = primary"
| "link_loop primary (l # ls) =
     (if get l ''rel'' = Some ''alternate'' \<or> \<not> truthy (get l ''rel'')
      then (if truthy (get l ''href'') then get l ''href''
            else link_loop (get l ''href'') ls)
      else link_loop primary ls)"

definition primary_link :: "element list \<Rightarrow> string option" where
  "primary_link links =
     (let primary = link_loop None links
      in if \<not> truthy primary
         then (case links of [] \<Rightarrow> primary | l # _ \<Rightarrow> get l ''href'')
         else primary)"

text \<open>The body of the Atom loop over the entries, up to the test that keeps an entry.\<close>

definition atom_entry_data :: "nsmap \<Rightarrow> element \<Rightarrow> exn + fields" where
  "atom_entry_data namespaces item =
     (case find_element_text item ''atom:title'' namespaces of
        Inl x \<Rightarrow> Inl x
      | Inr t \<Rightarrow>
     (case find_element_text item ''atom:summary'' namespaces of
        Inl x \<Rightarrow> Inl x
      | Inr d \<Rightarrow>
     (case (if \<not> truthy d then find_element_text item ''atom:content'' namespaces
            else Inr d) of
        Inl x \<Rightarrow> Inl x
      | Inr d' \<Rightarrow>
     (case findall item ''atom:link'' namespaces of
        Inl x \<Rightarrow> Inl x
      | Inr item_link_elems \<Rightarrow>
          Inr \<lparr>title = t, link = primary_link item_link_elems, description = d'\<rparr>))))"

text \<open>The body of the RSS loop over the items.\<close>

definition rss_entry_data :: "nsmap \<Rightarrow> element \<Rightarrow> exn + fields" where
  "rss_entry_data namespaces item =
     (case find_element_text item ''title'' namespaces of
        Inl x \<Rightarrow> Inl x
      | Inr t \<Rightarrow>
     (case find_element_text item ''link'' namespaces of
        Inl x \<Rightarrow> Inl x
      | Inr l \<Rightarrow>
     (case find_element_text item ''description'' namespaces of
        Inl x \<Rightarrow> Inl x
      | Inr d \<Rightarrow> Inr \<lparr>title = t, link = l, description = d\<rparr>)))"

text \<open>\<open>if entry_data.get('title') or entry_data.get('link')\<close>.\<close>

definition has_content :: "fields \<Rightarrow> bool" where
  "has_content entry_data = (truthy (title entry_data) \<or> truthy (link entry_data))"

text \<open>
  The loop \<open>for item in ...: ... parsed['entries'].append(entry_data)\<close>: the entries are
  extracted in document order, the first exception ends the loop, and an entry is
  appended only when it has a title or a link.
\<close>

fun collect_entries :: "(element \<Rightarrow> exn + fields) \<Rightarrow> element list \<Rightarrow> exn + fields list" where
  "collect_entries f [] = Inr []"
| "collect_entries f (item # items) =
     (case f item of
        Inl x \<Rightarrow> Inl x
      | Inr entry_data \<Rightarrow>
          (case collect_entries f items of
             Inl x \<Rightarrow> Inl x
           | Inr es \<Rightarrow> Inr (if has_content entry_data then entry_data # es else es)))"

text \<open>
  Why the parser returned \<open>None\<close>: each value is one of its \<open>return None\<close> statements,
  told apart by the message printed to the standard error stream.
  \<^item> \<open>NoContent\<close>: \<open>if not feed_content: return None\<close>, no message;
  \<^item> \<open>ChannelNotFound\<close>: "Could not find <channel> element in RSS feed.";
  \<^item> \<open>UnknownFeedType\<close>: "Unknown feed type (neither RSS nor Atom detected).";
  \<^item> \<open>XmlParseFailed\<close>: "Failed to parse XML", the handler of \<open>ET.ParseError\<close>;
  \<^item> \<open>UnexpectedError\<close>: "An unexpected error occurred during custom parsing", the
    handler of \<open>Exception\<close>.
\<close>

datatype failure = NoContent | ChannelNotFound | UnknownFeedType | XmlParseFailed | UnexpectedError

text \<open>The Atom branch.\<close>

definition parse_atom :: "nsmap \<Rightarrow> element \<Rightarrow> exn + parsed" where
  "parse_atom namespaces feed_elem =
     (case find_element_text feed_elem ''atom:title'' namespaces of
        Inl x \<Rightarrow> Inl x
      | Inr t \<Rightarrow>
     (case find_element_text feed_elem ''atom:subtitle'' namespaces of
        Inl x \<Rightarrow> Inl x
      | Inr d \<Rightarrow>
     (case findall feed_elem ''atom:link'' namespaces of
        Inl x \<Rightarrow> Inl x
      | Inr feed_link_elems \<Rightarrow>
     (case findall feed_elem ''atom:entry'' namespaces of
        Inl x \<Rightarrow> Inl x
      | Inr items \<Rightarrow>
     (case collect_entries (atom_entry_data namespaces) items of
        Inl x \<Rightarrow> Inl x
      | Inr es \<Rightarrow>
          Inr \<lparr>feed = \<lparr>title = t, link = primary_link feed_link_elems, description = d\<rparr>,
               entries = es\<rparr>)))))"

text \<open>
  The RSS branch. \<open>root.find('channel')\<close> is called without a namespace map; the other
  lookups pass \<open>namespaces\<close>.
\<close>

definition parse_rss :: "nsmap \<Rightarrow> element \<Rightarrow> exn + (failure + parsed)" where
  "parse_rss namespaces root =
     (case find_elem root ''channel'' Map.empty of
        Inl x \<Rightarrow> Inl x
      | Inr None \<Rightarrow> Inr (Inl ChannelNotFound)
      | Inr (Some channel) \<Rightarrow>
     (case find_element_text channel ''title'' namespaces of
        Inl x \<Rightarrow> Inl x
      | Inr t \<Rightarrow>
     (case find_element_text channel ''description'' namespaces of
        Inl x \<Rightarrow> Inl x
      | Inr d \<Rightarrow>
     (case find_element_text channel ''link'' namespaces of
        Inl x \<Rightarrow> Inl x
      | Inr l \<Rightarrow>
     (case findall channel ''item'' namespaces of
        Inl x \<Rightarrow> Inl x
      | Inr items \<Rightarrow>
     (case collect_entries (rss_entry_data namespaces) items of
        Inl x \<Rightarrow> Inl x
      | Inr es \<Rightarrow>
          Inr (Inr \<lparr>feed = \<lparr>title = t, link = l, description = d\<rparr>, entries = es\<rparr>)))))))"

text \<open>
  The body of the \<open>try\<close> block once the root is parsed: either an exception, or the
  value returned (\<open>None\<close> with its message, or the dictionary).
\<close>

definition parse_root :: "element \<Rightarrow> exn + (failure + parsed)" where
  "parse_root root =
     (let namespaces = namespaces_of root in
      if is_atom root then
        (case parse_atom namespaces root of Inl x \<Rightarrow> Inl x | Inr p \<Rightarrow> Inr (Inr p))
      else if is_rss root then parse_rss namespaces root
      else Inr (Inl UnknownFeedType))"

text \<open>What a call does: it returns a value, or an exception leaves it.\<close>

datatype 'a outcome = Returns 'a | Propagates exn

text \<open>
  \<open>parse_feed_custom\<close>. The XML parser \<open>ET.fromstring\<close> is a parameter: it gives the
  root element, or raises. \<open>feed_content\<close> may be \<open>None\<close>. The handlers are tried in
  the order of the source: \<open>except ET.ParseError\<close>, then \<open>except Exception\<close>.
\<close>

definition parse_feed_custom ::
    "(string \<Rightarrow> exn + element) \<Rightarrow> string option \<Rightarrow> (failure + parsed) outcome" where
  "parse_feed_custom fromstring feed_content =
     (case feed_content of
        None \<Rightarrow> Returns (Inl NoContent)
      | Some s \<Rightarrow>
          if s = [] then Returns (Inl NoContent)
          else
            (case (case fromstring (strip s) of
                     Inl x \<Rightarrow> Inl x
                   | Inr root \<Rightarrow> parse_root root) of
               Inr r \<Rightarrow> Returns r
             | Inl x \<Rightarrow>
                 if isinstance x ParseErrorClass then Returns (Inl XmlParseFailed)
                 else if isinstance x ExceptionClass then Returns (Inl UnexpectedError)
                 else Propagates x))"

section \<open>The fetcher\<close>

text \<open>
  The response of \<open>requests.get\<close> as \<open>fetch_feed_content\<close> reads it: the status code, the
  body (\<open>response.content\<close>, bytes) and \<open>response.text\<close>, the body decoded with the
  encoding the library detects.
\<close>

record response =
  status_code :: int
  content :: string
  resp_text :: string

text \<open>
  What \<open>requests.get\<close> and \<open>raise_for_status\<close> can raise: \<open>HTTPError\<close> (a subclass of
  \<open>RequestException\<close>) with the status code it reports, any other \<open>RequestException\<close>
  (timeout, connection failure), and any other \<open>Exception\<close>.
\<close>

datatype fetch_exn = HTTPError int | RequestException | OtherFetchException

fun is_RequestException :: "fetch_exn \<Rightarrow> bool" where
  "is_RequestException (HTTPError code) = True"
| "is_RequestException RequestException = True"
| "is_RequestException OtherFetchException = False"

text \<open>
  \<open>response.raise_for_status()\<close> of the requests library raises \<open>HTTPError\<close> for a client
  error (400 to 499) or a server error (500 to 599) and for no other status; the
  comment in \<open>rss_reader_basic.py\<close> says the same: "Raise an exception for bad status
  codes (4xx or 5xx)".
\<close>

definition raise_for_status :: "response \<Rightarrow> fetch_exn + unit" where
  "raise_for_status r =
     (if 400 \<le> status_code r \<and> status_code r < 600 then Inl (HTTPError (status_code r))
      else Inr ())"

text \<open>
  Why the fetcher returned \<open>None\<close>: the message "Error fetching URL" of the handler of
  \<open>RequestException\<close>, or "An unexpected error occurred during fetch" of the handler of
  \<open>Exception\<close>, each with the exception it prints.
\<close>

datatype fetch_failure = ErrorFetching fetch_exn | UnexpectedFetchError fetch_exn

text \<open>
  \<open>fetch_feed_content\<close>, with \<open>requests.get\<close> and the UTF-8 decoder as parameters
  (\<open>decode_utf8\<close> gives \<open>None\<close> where \<open>bytes.decode\<close> raises \<open>UnicodeDecodeError\<close>).
\<close>

definition fetch_feed_content ::
    "(string \<Rightarrow> fetch_exn + response) \<Rightarrow> (string \<Rightarrow> string option) \<Rightarrow> string
       \<Rightarrow> fetch_failure + string" where
  "fetch_feed_content requests_get decode_utf8 url =
     (case (case requests_get url of
              Inl x \<Rightarrow> Inl x
            | Inr r \<Rightarrow>
                (case raise_for_status r of
                   Inl x \<Rightarrow> Inl x
                 | Inr _ \<Rightarrow>
                     Inr (case decode_utf8 (content r) of
                            Some s \<Rightarrow> s
                          | None \<Rightarrow> resp_text r))) of
        Inr c \<Rightarrow> Inr c
      | Inl x \<Rightarrow>
          if is_RequestException x then Inl (ErrorFetching x)
          else Inl (UnexpectedFetchError x))"

section \<open>The parser as a call that reads and writes state\<close>

text \<open>
  The state a call of \<open>parse_feed_custom\<close> can reach. Its own variables are local; what
  outlives a call is the module-level dictionary \<open>_cache\<close> of \<open>xml.etree.ElementPath\<close>,
  which \<open>find\<close> and \<open>findall\<close> read and fill, and the standard error stream, to which the
  parser prints. The cache maps the path and the namespace items to the compiled
  selector; for a path that is one name the selector is the qualified name it tests.
\<close>

type_synonym cache = "((string \<times> nsmap) \<times> string) list"

record world =
  path_cache :: cache
  stderr :: "failure list"

text \<open>A step that may raise and that reads and writes the cache.\<close>

type_synonym 'a lookup = "cache \<Rightarrow> (exn + 'a) \<times> cache"

definition return_c :: "'a \<Rightarrow> 'a lookup" where
  "return_c v c = (Inr v, c)"

definition lift_c :: "exn + 'a \<Rightarrow> 'a lookup" where
  "lift_c r c = (r, c)"

definition bind_c :: "'a lookup \<Rightarrow> ('a \<Rightarrow> 'b lookup) \<Rightarrow> 'b lookup" where
  "bind_c m f c = (case m c of (Inl x, c') \<Rightarrow> (Inl x, c') | (Inr v, c') \<Rightarrow> f v c')"

text \<open>
  \<open>ElementPath.iterfind\<close>:
  \<^verbatim>\<open>try: selector = _cache[cache_key]\<close>
  \<^verbatim>\<open>except KeyError:\<close>
  \<^verbatim>\<open>    if len(_cache) > 100: _cache.clear()\<close>
  \<^verbatim>\<open>    ... selector compiled from xpath_tokenizer(path, namespaces) ...\<close>
  \<^verbatim>\<open>    _cache[cache_key] = selector\<close>
  A hit uses the stored selector; a miss compiles the path, which may raise after the
  cache was cleared, and stores the selector.
\<close>

definition findall_c :: "element \<Rightarrow> string \<Rightarrow> nsmap \<Rightarrow> element list lookup" where
  "findall_c e path namespaces c =
     (case map_of c (path, namespaces) of
        Some t \<Rightarrow> (Inr (children_matching t e), c)
      | None \<Rightarrow>
          (let c' = (if length c > 100 then [] else c) in
           case xpath_tag namespaces path of
             Inl x \<Rightarrow> (Inl x, c')
           | Inr t \<Rightarrow> (Inr (children_matching t e), ((path, namespaces), t) # c')))"

definition find_elem_c :: "element \<Rightarrow> string \<Rightarrow> nsmap \<Rightarrow> element option lookup" where
  "find_elem_c e path namespaces =
     bind_c (findall_c e path namespaces)
       (\<lambda>cs. return_c (case cs of [] \<Rightarrow> None | c # _ \<Rightarrow> Some c))"

definition find_element_text_c :: "element \<Rightarrow> string \<Rightarrow> nsmap \<Rightarrow> string option lookup" where
  "find_element_text_c parent_element tag_name namespaces =
     bind_c (find_elem_c parent_element tag_name namespaces)
       (\<lambda>element. return_c
          (case element of
             None \<Rightarrow> None
           | Some el \<Rightarrow>
               (case etext el of
                  None \<Rightarrow> None
                | Some t \<Rightarrow> if t \<noteq> [] then Some (strip t) else None)))"

definition atom_entry_data_c :: "nsmap \<Rightarrow> element \<Rightarrow> fields lookup" where
  "atom_entry_data_c namespaces item =
     bind_c (find_element_text_c item ''atom:title'' namespaces) (\<lambda>t.
     bind_c (find_element_text_c item ''atom:summary'' namespaces) (\<lambda>d.
     bind_c (if \<not> truthy d then find_element_text_c item ''atom:content'' namespaces
             else return_c d) (\<lambda>d'.
     bind_c (findall_c item ''atom:link'' namespaces) (\<lambda>item_link_elems.
     return_c \<lparr>title = t, link = primary_link item_link_elems, description = d'\<rparr>))))"

definition rss_entry_data_c :: "nsmap \<Rightarrow> element \<Rightarrow> fields lookup" where
  "rss_entry_data_c namespaces item =
     bind_c (find_element_text_c item ''title'' namespaces) (\<lambda>t.
     bind_c (find_element_text_c item ''link'' namespaces) (\<lambda>l.
     bind_c (find_element_text_c item ''description'' namespaces) (\<lambda>d.
     return_c \<lparr>title = t, link = l, description = d\<rparr>)))"

fun collect_entries_c :: "(element \<Rightarrow> fields lookup) \<Rightarrow> element list \<Rightarrow> fields list lookup" where
  "collect_entries_c f [] c = (Inr [], c)"
| "collect_entries_c f (item # items) c =
     (case f item c of
        (Inl x, c') \<Rightarrow> (Inl x, c')
      | (Inr entry_data, c') \<Rightarrow>
          (case collect_entries_c f items c' of
             (Inl x, c'') \<Rightarrow> (Inl x, c'')
           | (Inr es, c'') \<Rightarrow> (Inr (if has_content entry_data then entry_data # es else es), c'')))"

definition parse_atom_c :: "nsmap \<Rightarrow> element \<Rightarrow> parsed lookup" where
  "parse_atom_c namespaces feed_elem =
     bind_c (find_element_text_c feed_elem ''atom:title'' namespaces) (\<lambda>t.
     bind_c (find_element_text_c feed_elem ''atom:subtitle'' namespaces) (\<lambda>d.
     bind_c (findall_c feed_elem ''atom:link'' namespaces) (\<lambda>feed_link_elems.
     bind_c (findall_c feed_elem ''atom:entry'' namespaces) (\<lambda>items.
     bind_c (collect_entries_c (atom_entry_data_c namespaces) items) (\<lambda>es.
     return_c \<lparr>feed = \<lparr>title = t, link = primary_link feed_link_elems, description = d\<rparr>,
               entries = es\<rparr>)))))"

text \<open>
  \<open>root.find('channel')\<close> passes no namespace map and a plain name: the element compares
  the tags of its children itself and does not go through \<open>iterfind\<close> and its cache.
\<close>

definition parse_rss_c :: "nsmap \<Rightarrow> element \<Rightarrow> (failure + parsed) lookup" where
  "parse_rss_c namespaces root =
     bind_c (lift_c (find_elem root ''channel'' Map.empty)) (\<lambda>found.
     case found of
       None \<Rightarrow> return_c (Inl ChannelNotFound)
     | Some channel \<Rightarrow>
         bind_c (find_element_text_c channel ''title'' namespaces) (\<lambda>t.
         bind_c (find_element_text_c channel ''description'' namespaces) (\<lambda>d.
         bind_c (find_element_text_c channel ''link'' namespaces) (\<lambda>l.
         bind_c (findall_c channel ''item'' namespaces) (\<lambda>items.
         bind_c (collect_entries_c (rss_entry_data_c namespaces) items) (\<lambda>es.
         return_c (Inr \<lparr>feed = \<lparr>title = t, link = l, description = d\<rparr>,
                        entries = es\<rparr>)))))))"

definition parse_root_c :: "element \<Rightarrow> (failure + parsed) lookup" where
  "parse_root_c root =
     (let namespaces = namespaces_of root in
      if is_atom root then bind_c (parse_atom_c namespaces root) (\<lambda>p. return_c (Inr p))
      else if is_rss root then parse_rss_c namespaces root
      else return_c (Inl UnknownFeedType))"

text \<open>
  One call of \<open>parse_feed_custom\<close> in a world: the value it returns and the world it
  leaves. Each \<open>return None\<close> but the first prints its message. The XML parser builds a
  new tree from the text at each call and is a function of the text.
\<close>

definition call_parse_feed_custom ::
    "(string \<Rightarrow> exn + element) \<Rightarrow> string option \<Rightarrow> world
       \<Rightarrow> (failure + parsed) outcome \<times> world" where
  "call_parse_feed_custom fromstring feed_content w =
     (case feed_content of
        None \<Rightarrow> (Returns (Inl NoContent), w)
      | Some s \<Rightarrow>
          if s = [] then (Returns (Inl NoContent), w)
          else
            (case (case fromstring (strip s) of
                     Inl x \<Rightarrow> (Inl x, path_cache w)
                   | Inr root \<Rightarrow> parse_root_c root (path_cache w)) of
               (Inr (Inr p), c) \<Rightarrow> (Returns (Inr p), w\<lparr>path_cache := c\<rparr>)
             | (Inr (Inl f), c) \<Rightarrow>
                 (Returns (Inl f), w\<lparr>path_cache := c, stderr := stderr w @ [f]\<rparr>)
             | (Inl x, c) \<Rightarrow>
                 if isinstance x ParseErrorClass
                 then (Returns (Inl XmlParseFailed),
                       w\<lparr>path_cache := c, stderr := stderr w @ [XmlParseFailed]\<rparr>)
                 else if isinstance x ExceptionClass
                 then (Returns (Inl UnexpectedError),
                       w\<lparr>path_cache := c, stderr := stderr w @ [UnexpectedError]\<rparr>)
                 else (Propagates x, w\<lparr>path_cache := c\<rparr>)))"

text \<open>The world after a sequence of calls, one for each content of the list.\<close>

definition after_calls ::
    "(string \<Rightarrow> exn + element) \<Rightarrow> string option list \<Rightarrow> world \<Rightarrow> world" where
  "after_calls fromstring contents w =
     foldl (\<lambda>v feed_content. snd (call_parse_feed_custom fromstring feed_content v)) w contents"

text \<open>
  The caches the library can hold: no key twice, and under each key the selector that
  compiling the key gives. The empty cache of a fresh process is one, and every lookup
  keeps the property.
\<close>

definition cache_ok :: "cache \<Rightarrow> bool" where
  "cache_ok c =
     (distinct (map fst c) \<and>
      list_all (\<lambda>(k, t). xpath_tag (snd k) (fst k) = Inr t) c)"

text \<open>
  A step with the cache agrees with a value computed without it: from every such cache
  it gives that value and leaves such a cache.
\<close>

definition agrees :: "'a lookup \<Rightarrow> exn + 'a \<Rightarrow> bool" where
  "agrees m v = (\<forall>c. cache_ok c \<longrightarrow> fst (m c) = v \<and> cache_ok (snd (m c)))"

section \<open>The link selection in closed form\<close>

text \<open>
  A candidate the loop looks at: its \<open>rel\<close> is \<open>alternate\<close>, or it has no \<open>rel\<close> (or an
  empty one).
\<close>

definition preferred :: "element \<Rightarrow> bool" where
  "preferred l = (get l ''rel'' = Some ''alternate'' \<or> \<not> truthy (get l ''rel''))"

text \<open>
  The selection the loop computes: the \<open>href\<close> of the first candidate, in document
  order, that is preferred and has a non-empty \<open>href\<close>; without one, the \<open>href\<close> of the
  first candidate; without candidates, nothing.
\<close>

definition first_preferred_href :: "element list \<Rightarrow> string option" where
  "first_preferred_href links =
     (case List.find (\<lambda>l. preferred l \<and> truthy (get l ''href'')) links of
        Some l \<Rightarrow> get l ''href''
      | None \<Rightarrow> (case links of [] \<Rightarrow> None | l # _ \<Rightarrow> get l ''href''))"

text \<open>
  The selection in the words of the specification, in three tiers: the first candidate
  whose \<open>rel\<close> is \<open>alternate\<close>; else the first candidate with no \<open>rel\<close> attribute at
  all; else the first candidate.
\<close>

definition spec_three_tier_href :: "element list \<Rightarrow> string option" where
  "spec_three_tier_href links =
     (case List.find (\<lambda>l. get l ''rel'' = Some ''alternate'') links of
        Some l \<Rightarrow> get l ''href''
      | None \<Rightarrow>
          (case List.find (\<lambda>l. get l ''rel'' = None) links of
             Some l \<Rightarrow> get l ''href''
           | None \<Rightarrow> (case links of [] \<Rightarrow> None | l # _ \<Rightarrow> get l ''href'')))"

text \<open>
  The dialect test in the words of the specification: the root name ends in \<open>feed\<close>, or
  the namespace of the root is the Atom namespace.
\<close>

definition atom_namespace_uri :: string where
  "atom_namespace_uri = ''http://www.w3.org/2005/Atom''"

definition spec_is_atom :: "element \<Rightarrow> bool" where
  "spec_is_atom root =
     (endswith (tag root) ''feed'' \<or> namespaces_of root ''atom'' = Some atom_namespace_uri)"

section \<open>Example documents\<close>

text \<open>
  A parser that knows one document: it gives \<open>tree\<close> for \<open>doc\<close> and raises
  \<open>ET.ParseError\<close> for every other text.
\<close>

definition parser_for :: "string \<Rightarrow> element \<Rightarrow> string \<Rightarrow> exn + element" where
  "parser_for doc tree s = (if s = doc then Inr tree else Inl ParseError)"

text \<open>
  The Atom example of the specification, whose root declares no namespace, and the
  tree \<open>ET.fromstring\<close> builds for it.
\<close>

definition plain_feed_doc :: string where
  "plain_feed_doc =
     ''<feed><entry><link rel=\"self\" href=\"http://x/s\"/>'' @
     ''<link rel=\"alternate\" href=\"http://x/a\"/><title>B</title></entry></feed>''"

definition plain_feed_tree :: element where
  "plain_feed_tree =
     Element ''feed'' [] None
       [Element ''entry'' [] None
          [Element ''link'' [(''rel'', ''self''), (''href'', ''http://x/s'')] None [],
           Element ''link'' [(''rel'', ''alternate''), (''href'', ''http://x/a'')] None [],
           Element ''title'' [] (Some ''B'') []]]"

text \<open>The same feed with the Atom namespace declared on the root.\<close>

definition atom_feed_doc :: string where
  "atom_feed_doc =
     ''<feed xmlns=\"http://www.w3.org/2005/Atom\"><entry>'' @
     ''<link rel=\"self\" href=\"http://x/s\"/>'' @
     ''<link rel=\"alternate\" href=\"http://x/a\"/><title>B</title></entry></feed>''"

definition atom_feed_tree :: element where
  "atom_feed_tree =
     Element ''{http://www.w3.org/2005/Atom}feed'' [] None
       [Element ''{http://www.w3.org/2005/Atom}entry'' [] None
          [Element ''{http://www.w3.org/2005/Atom}link''
             [(''rel'', ''self''), (''href'', ''http://x/s'')] None [],
           Element ''{http://www.w3.org/2005/Atom}link''
             [(''rel'', ''alternate''), (''href'', ''http://x/a'')] None [],
           Element ''{http://www.w3.org/2005/Atom}title'' [] (Some ''B'') []]]"

definition atom_feed_parsed :: parsed where
  "atom_feed_parsed =
     \<lparr>feed = \<lparr>title = None, link = None, description = None\<rparr>,
      entries = [\<lparr>title = Some ''B'', link = Some ''http://x/a'', description = None\<rparr>]\<rparr>"

text \<open>
  An Atom entry whose first link has no \<open>rel\<close> and whose second link is the
  \<open>alternate\<close> one.
\<close>

definition typeless_first_links :: "element list" where
  "typeless_first_links =
     [Element ''{http://www.w3.org/2005/Atom}link'' [(''href'', ''http://x/p'')] None [],
      Element ''{http://www.w3.org/2005/Atom}link''
        [(''rel'', ''alternate''), (''href'', ''http://x/a'')] None []]"

definition typeless_first_tree :: element where
  "typeless_first_tree =
     Element ''{http://www.w3.org/2005/Atom}feed'' [] None
       [Element ''{http://www.w3.org/2005/Atom}entry'' [] None
          (typeless_first_links @
           [Element ''{http://www.w3.org/2005/Atom}title'' [] (Some ''T'') []])]"

text \<open>
  \<^verbatim>\<open><x:rss xmlns:x="urn:example"><channel><title>T</title></channel></x:rss>\<close>: the root
  is named \<open>rss\<close> and carries a namespace that is not the Atom one.
\<close>

definition foreign_rss_doc :: string where
  "foreign_rss_doc =
     ''<x:rss xmlns:x=\"urn:example\"><channel><title>T</title></channel></x:rss>''"

definition foreign_rss_tree :: element where
  "foreign_rss_tree =
     Element ''{urn:example}rss'' [] None
       [Element ''channel'' [] None [Element ''title'' [] (Some ''T'') []]]"

text \<open>
  \<^verbatim>\<open><rss><channel><title>   </title><item><title>A</title><link>http://x/1</link></item></channel></rss>\<close>:
  the channel title is three spaces.
\<close>

definition blank_title_tree :: element where
  "blank_title_tree =
     Element ''rss'' [] None
       [Element ''channel'' [] None
          [Element ''title'' [] (Some ''   '') [],
           Element ''item'' [] None
             [Element ''title'' [] (Some ''A'') [],
              Element ''link'' [] (Some ''http://x/1'') []]]]"

text \<open>
  An RSS feed with two items: the first has an empty title, an empty link and a
  description; the second has a title and a link.
\<close>

definition two_items_doc :: string where
  "two_items_doc =
     ''<rss><channel><title>Ex</title>'' @
     ''<item><title/><link/><description>d</description></item>'' @
     ''<item><title>A</title><link>http://x/1</link></item></channel></rss>''"

definition two_items_tree :: element where
  "two_items_tree =
     Element ''rss'' [] None
       [Element ''channel'' [] None
          [Element ''title'' [] (Some ''Ex'') [],
           Element ''item'' [] None
             [Element ''title'' [] None [],
              Element ''link'' [] None [],
              Element ''description'' [] (Some ''d'') []],
           Element ''item'' [] None
             [Element ''title'' [] (Some ''A'') [],
              Element ''link'' [] (Some ''http://x/1'') []]]]"

definition two_items_parsed :: parsed where
  "two_items_parsed =
     \<lparr>feed = \<lparr>title = Some ''Ex'', link = None, description = None\<rparr>,
      entries = [\<lparr>title = Some ''A'', link = Some ''http://x/1'', description = None\<rparr>]\<rparr>"

text \<open>\<^verbatim>\<open><rss><title>Ex</title></rss>\<close>: an RSS root without a channel.\<close>

definition no_channel_doc :: string where
  "no_channel_doc = ''<rss><title>Ex</title></rss>''"

definition no_channel_tree :: element where
  "no_channel_tree = Element ''rss'' [] None [Element ''title'' [] (Some ''Ex'') []]"


text \<open>A response with status 300 (Multiple Choices) and a body.\<close>

definition multiple_choices :: response where
  "multiple_choices = \<lparr>status_code = 300, content = ''<rss/>'', resp_text = ''<rss/>''\<rparr>"

text \<open>A response with status 404 and a body.\<close>

definition not_found :: response where
  "not_found = \<lparr>status_code = 404, content = ''gone'', resp_text = ''gone''\<rparr>"

text \<open>The documents of \<open>typeless_first_tree\<close> and \<open>blank_title_tree\<close>.\<close>

definition typeless_first_doc :: string where
  "typeless_first_doc =
     ''<feed xmlns=\"http://www.w3.org/2005/Atom\"><entry>'' @
     ''<link href=\"http://x/p\"/><link rel=\"alternate\" href=\"http://x/a\"/>'' @
     ''<title>T</title></entry></feed>''"

definition blank_title_doc :: string where
  "blank_title_doc =
     ''<rss><channel><title>   </title>'' @
     ''<item><title>A</title><link>http://x/1</link></item></channel></rss>''"

text \<open>The unknown dialect example of the specification.\<close>

definition unknown_doc :: string where
  "unknown_doc = ''<foo><bar/></foo>''"

definition unknown_tree :: element where
  "unknown_tree = Element ''foo'' [] None [Element ''bar'' [] None []]"

text \<open>The world of a fresh process: nothing cached, nothing printed.\<close>

definition initial_world :: world where
  "initial_world = \<lparr>path_cache = [], stderr = []\<rparr>"





section \<open>Basic facts\<close>

lemmas parser_defs =
  parse_root_def parse_atom_def parse_rss_def atom_entry_data_def
  rss_entry_data_def find_element_text_def find_elem_def findall_def xpath_tag_def
  children_matching_def tag_selects_def namespaces_of_def is_atom_def is_rss_def
  endswith_def primary_link_def get_def truthy_def has_content_def strip_def isspace_def

text \<open>A text that neither starts nor ends with whitespace is its own \<open>strip\<close>.\<close>

lemma strip_unchanged:
  assumes "s \<noteq> []" and "\<not> isspace (hd s)" and "\<not> isspace (last s)"
  shows "strip s = s"
proof -
  from assms have "dropWhile isspace s = s"
    by (simp add: dropWhile_eq_self_iff)
  moreover from assms have "dropWhile isspace (rev s) = rev s"
    by (simp add: dropWhile_eq_self_iff hd_rev)
  ultimately show ?thesis
    by (simp add: strip_def)
qed

text \<open>A text with a character that is not whitespace keeps it under \<open>strip\<close>.\<close>

lemma strip_nonempty:
  assumes "\<exists>c\<in>set s. \<not> isspace c"
  shows "strip s \<noteq> []"
proof -
  let ?d = "dropWhile isspace s"
  from assms have d: "?d \<noteq> []"
    by (simp add: dropWhile_eq_Nil_conv)
  then have "\<not> isspace (hd ?d)"
    by (rule hd_dropWhile)
  moreover from d have "hd ?d \<in> set (rev ?d)"
    by simp
  ultimately have "\<exists>c\<in>set (rev ?d). \<not> isspace c"
    by blast
  then have "dropWhile isspace (rev ?d) \<noteq> []"
    by (simp only: dropWhile_eq_Nil_conv) blast
  then show ?thesis
    by (simp add: strip_def)
qed

text \<open>The \<open>strip\<close> of a text of whitespace only is empty.\<close>

lemma strip_blank:
  assumes "\<forall>c\<in>set s. isspace c"
  shows "strip s = []"
proof -
  from assms have "dropWhile isspace s = []"
    by (simp add: dropWhile_eq_Nil_conv)
  then show ?thesis
    by (simp only: strip_def rev.simps dropWhile.simps)
qed

text \<open>Every exception of the model is an instance of \<open>Exception\<close>.\<close>

lemma isinstance_Exception: "isinstance x ExceptionClass"
  by (cases x) simp_all

subsection \<open>Lookups\<close>

lemma xpath_tag_raises: "xpath_tag ns path = Inl x \<Longrightarrow> x = SyntaxError"
  by (auto simp: xpath_tag_def split: if_splits option.splits)

lemma xpath_tag_atom:
  "ns ''atom'' = Some uri \<Longrightarrow> xpath_tag ns (''atom:'' @ name) = Inr (''{'' @ uri @ ''}'' @ name)"
  by (simp add: xpath_tag_def)

lemma xpath_tag_atom_none:
  "ns ''atom'' = None \<Longrightarrow> xpath_tag ns (''atom:'' @ name) = Inl SyntaxError"
  by (simp add: xpath_tag_def)

lemma findall_atom:
  "ns ''atom'' = Some uri \<Longrightarrow>
     findall e (''atom:'' @ name) ns = Inr (children_matching (''{'' @ uri @ ''}'' @ name) e)"
  using xpath_tag_atom [of ns uri name] by (simp add: findall_def)

lemma findall_raises: "findall e path ns = Inl x \<Longrightarrow> x = SyntaxError"
  by (auto simp: findall_def split: sum.splits dest: xpath_tag_raises)

lemma find_elem_raises: "find_elem e path ns = Inl x \<Longrightarrow> x = SyntaxError"
  by (auto simp: find_elem_def split: sum.splits dest: findall_raises)

lemma find_element_text_raises: "find_element_text e path ns = Inl x \<Longrightarrow> x = SyntaxError"
  by (auto simp: find_element_text_def split: sum.splits option.splits dest: find_elem_raises)

text \<open>A name without a colon is looked up unqualified when the map has no default.\<close>

lemma xpath_tag_plain:
  "path \<noteq> [] \<Longrightarrow> CHR '':'' \<notin> set path \<Longrightarrow> ns [] = None \<Longrightarrow> xpath_tag ns path = Inr path"
  by (simp add: xpath_tag_def)

subsection \<open>What \<open>find_element_text\<close> returns\<close>

lemma find_element_text_absent:
  "find_elem parent path ns = Inr None \<Longrightarrow> find_element_text parent path ns = Inr None"
  by (simp add: find_element_text_def)

lemma find_element_text_no_text:
  "find_elem parent path ns = Inr (Some el) \<Longrightarrow> etext el = None \<or> etext el = Some [] \<Longrightarrow>
     find_element_text parent path ns = Inr None"
  by (auto simp: find_element_text_def)

lemma find_element_text_stripped:
  "find_elem parent path ns = Inr (Some el) \<Longrightarrow> etext el = Some t \<Longrightarrow> t \<noteq> [] \<Longrightarrow>
     find_element_text parent path ns = Inr (Some (strip t))"
  by (simp add: find_element_text_def)

subsection \<open>The loop over the entries\<close>

lemma collect_entries_has_content:
  "collect_entries f items = Inr es \<Longrightarrow> e \<in> set es \<Longrightarrow> has_content e"
proof (induction items arbitrary: es)
  case Nil
  then show ?case by simp
next
  case (Cons item items)
  then show ?case
    by (auto split: sum.splits if_splits)
qed

lemma collect_entries_origin:
  "collect_entries f items = Inr es \<Longrightarrow> e \<in> set es \<Longrightarrow> \<exists>item\<in>set items. f item = Inr e"
proof (induction items arbitrary: es)
  case Nil
  then show ?case by simp
next
  case (Cons item items)
  then show ?case
    by (auto split: sum.splits if_splits)
qed

text \<open>The entries returned are the extracted ones, in order, without those that have
  neither a title nor a link.\<close>

lemma collect_entries_filter:
  "collect_entries f items = Inr es \<Longrightarrow>
     \<exists>ds. list_all2 (\<lambda>item d. f item = Inr d) items ds \<and> es = filter has_content ds"
proof (induction items arbitrary: es)
  case Nil
  then show ?case by simp
next
  case (Cons item items)
  from Cons.prems obtain d es' where d: "f item = Inr d"
    and es': "collect_entries f items = Inr es'"
    and es: "es = (if has_content d then d # es' else es')"
    by (auto split: sum.splits)
  from Cons.IH [OF es'] obtain ds
    where "list_all2 (\<lambda>item d. f item = Inr d) items ds" "es' = filter has_content ds"
    by blast
  with d es have "list_all2 (\<lambda>item d. f item = Inr d) (item # items) (d # ds) \<and>
      es = filter has_content (d # ds)"
    by simp
  then show ?case by blast
qed

lemma collect_entries_raises:
  assumes "\<And>item x. f item = Inl x \<Longrightarrow> x = SyntaxError"
  shows "collect_entries f items = Inl x \<Longrightarrow> x = SyntaxError"
  by (induction items) (auto split: sum.splits dest: assms)

subsection \<open>The link selection loop\<close>

lemma link_loop_found:
  "List.find (\<lambda>l. preferred l \<and> truthy (get l ''href'')) links = Some a \<Longrightarrow>
     link_loop primary links = get a ''href''"
  by (induction links arbitrary: primary) (auto simp: preferred_def split: if_splits)

lemma link_loop_none:
  "List.find (\<lambda>l. preferred l \<and> truthy (get l ''href'')) links = None \<Longrightarrow>
     \<not> truthy primary \<Longrightarrow> \<not> truthy (link_loop primary links)"
  by (induction links arbitrary: primary) (auto simp: preferred_def split: if_splits)

text \<open>The loop and its fallback compute the closed form.\<close>

lemma primary_link_eq: "primary_link links = first_preferred_href links"
proof (cases "List.find (\<lambda>l. preferred l \<and> truthy (get l ''href'')) links")
  case None
  then have "\<not> truthy (link_loop None links)"
    by (rule link_loop_none) (simp add: truthy_def)
  with None show ?thesis
    by (cases links) (simp_all add: primary_link_def first_preferred_href_def)
next
  case (Some a)
  then have "truthy (get a ''href'')"
    by (auto simp: find_Some_iff)
  with Some show ?thesis
    by (simp add: primary_link_def first_preferred_href_def link_loop_found)
qed

lemma find_alternate:
  assumes "\<forall>l\<in>set links. truthy (get l ''rel'')"
  shows "List.find (\<lambda>l. preferred l \<and> truthy (get l ''href'')) links =
         List.find (\<lambda>l. get l ''rel'' = Some ''alternate'' \<and> truthy (get l ''href'')) links"
  using assms by (induction links) (auto simp: preferred_def)

text \<open>When every candidate carries a \<open>rel\<close>, the first \<open>alternate\<close> candidate with an
  \<open>href\<close> is selected.\<close>

lemma first_preferred_href_alternate:
  assumes "\<forall>l\<in>set links. truthy (get l ''rel'')"
    and "List.find (\<lambda>l. get l ''rel'' = Some ''alternate'' \<and> truthy (get l ''href'')) links
           = Some a"
  shows "first_preferred_href links = get a ''href''"
  using assms by (simp add: first_preferred_href_def find_alternate)

text \<open>When some preferred candidate has an \<open>href\<close>, the selected link is the \<open>href\<close> of
  a preferred candidate: the fallback to the first candidate is not reached.\<close>

lemma first_preferred_href_preferred:
  assumes "a \<in> set links" and "preferred a" and "truthy (get a ''href'')"
  shows "\<exists>b\<in>set links. preferred b \<and> truthy (get b ''href'') \<and>
           first_preferred_href links = get b ''href''"
proof -
  from assms have "List.find (\<lambda>l. preferred l \<and> truthy (get l ''href'')) links \<noteq> None"
    by (auto simp: find_None_iff)
  then obtain b where b: "List.find (\<lambda>l. preferred l \<and> truthy (get l ''href'')) links = Some b"
    by blast
  then have "b \<in> set links" and "preferred b" and "truthy (get b ''href'')"
    by (auto simp: find_Some_iff)
  with b show ?thesis
    by (auto simp: first_preferred_href_def)
qed

subsection \<open>The branches\<close>

lemma atom_entry_data_link:
  assumes "ns ''atom'' = Some uri" and "atom_entry_data ns item = Inr e"
  shows "link e = primary_link (children_matching (''{'' @ uri @ ''}link'') item)"
  using assms findall_atom [of ns uri item "''link''"]
  by (auto simp: atom_entry_data_def split: sum.splits)

lemma atom_entry_data_raises: "atom_entry_data ns item = Inl x \<Longrightarrow> x = SyntaxError"
  by (auto simp: atom_entry_data_def split: sum.splits if_splits
      dest: find_element_text_raises findall_raises)

text \<open>Without the prefix \<open>atom\<close> in the map, the first lookup of the Atom branch raises.\<close>

lemma parse_atom_no_prefix:
  "ns ''atom'' = None \<Longrightarrow> parse_atom ns root = Inl SyntaxError"
  using xpath_tag_atom_none [of ns "''title''"]
  by (simp add: parse_atom_def find_element_text_def find_elem_def findall_def)

lemma collect_atom_raises:
  "collect_entries (atom_entry_data ns) items = Inl x \<Longrightarrow> x = SyntaxError"
  by (rule collect_entries_raises [of "atom_entry_data ns"]) (rule atom_entry_data_raises)

lemma parse_atom_raises: "parse_atom ns root = Inl x \<Longrightarrow> x = SyntaxError"
  by (auto simp: parse_atom_def split: sum.splits
      dest: find_element_text_raises findall_raises collect_atom_raises)

lemma parse_atom_links:
  assumes "ns ''atom'' = Some uri" and "parse_atom ns root = Inr p"
  shows "link (feed p) = primary_link (children_matching (''{'' @ uri @ ''}link'') root) \<and>
         (\<forall>e\<in>set (entries p). \<exists>item\<in>set (children_matching (''{'' @ uri @ ''}entry'') root).
            link e = primary_link (children_matching (''{'' @ uri @ ''}link'') item))"
proof -
  from assms obtain es where
    es: "collect_entries (atom_entry_data ns)
           (children_matching (''{'' @ uri @ ''}entry'') root) = Inr es"
    and p: "entries p = es"
      "link (feed p) = primary_link (children_matching (''{'' @ uri @ ''}link'') root)"
    using findall_atom [of ns uri root "''link''"] findall_atom [of ns uri root "''entry''"]
    by (auto simp: parse_atom_def split: sum.splits)
  have "\<exists>item\<in>set (children_matching (''{'' @ uri @ ''}entry'') root).
          link e = primary_link (children_matching (''{'' @ uri @ ''}link'') item)"
    if "e \<in> set es" for e
  proof -
    from collect_entries_origin [OF es that] obtain item
      where "item \<in> set (children_matching (''{'' @ uri @ ''}entry'') root)"
        and "atom_entry_data ns item = Inr e"
      by blast
    with assms(1) show ?thesis
      using atom_entry_data_link by blast
  qed
  with p show ?thesis by simp
qed

lemma parse_atom_entries:
  "parse_atom ns root = Inr p \<Longrightarrow> e \<in> set (entries p) \<Longrightarrow> has_content e"
  by (auto simp: parse_atom_def split: sum.splits dest: collect_entries_has_content)

lemma parse_rss_entries:
  "parse_rss ns root = Inr (Inr p) \<Longrightarrow> e \<in> set (entries p) \<Longrightarrow> has_content e"
  by (auto simp: parse_rss_def split: sum.splits option.splits
      dest: collect_entries_has_content)

text \<open>The RSS branch looks up plain names only: it raises nothing, and the one failure
  it returns is the missing channel.\<close>

lemma findall_plain:
  "path \<noteq> [] \<Longrightarrow> CHR '':'' \<notin> set path \<Longrightarrow> ns [] = None \<Longrightarrow>
     findall e path ns = Inr (children_matching path e)"
  by (simp add: findall_def xpath_tag_plain)

lemma find_element_text_plain:
  "path \<noteq> [] \<Longrightarrow> CHR '':'' \<notin> set path \<Longrightarrow> ns [] = None \<Longrightarrow>
     \<exists>r. find_element_text e path ns = Inr r"
  by (simp add: find_element_text_def find_elem_def findall_plain split: list.splits option.splits)

lemma rss_entry_data_returns:
  assumes "ns [] = None"
  shows "\<exists>d. rss_entry_data ns item = Inr d"
proof -
  from assms obtain t l d where "find_element_text item ''title'' ns = Inr t"
    and "find_element_text item ''link'' ns = Inr l"
    and "find_element_text item ''description'' ns = Inr d"
    using find_element_text_plain [of "''title''" ns item]
      find_element_text_plain [of "''link''" ns item]
      find_element_text_plain [of "''description''" ns item]
    by auto
  then show ?thesis
    by (simp add: rss_entry_data_def)
qed

lemma collect_entries_returns:
  assumes "\<And>item. \<exists>d. f item = Inr d"
  shows "\<exists>es. collect_entries f items = Inr es"
proof (induction items)
  case Nil
  show ?case by simp
next
  case (Cons item items)
  from assms obtain d where "f item = Inr d"
    by blast
  with Cons.IH show ?case
    by auto
qed

lemma parse_rss_returns:
  assumes "ns [] = None"
  shows "\<exists>r. parse_rss ns root = Inr r \<and> r \<noteq> Inl UnknownFeedType"
proof (cases "children_matching ''channel'' root")
  case Nil
  then have "parse_rss ns root = Inr (Inl ChannelNotFound)"
    by (simp add: parse_rss_def find_elem_def findall_plain)
  then show ?thesis by simp
next
  case (Cons channel rest)
  then have ch: "find_elem root ''channel'' Map.empty = Inr (Some channel)"
    by (simp add: find_elem_def findall_plain)
  from assms obtain t d l where "find_element_text channel ''title'' ns = Inr t"
    and "find_element_text channel ''description'' ns = Inr d"
    and "find_element_text channel ''link'' ns = Inr l"
    using find_element_text_plain [of "''title''" ns channel]
      find_element_text_plain [of "''link''" ns channel]
      find_element_text_plain [of "''description''" ns channel]
    by auto
  moreover from assms have "findall channel ''item'' ns = Inr (children_matching ''item'' channel)"
    by (simp add: findall_plain)
  moreover from assms obtain es
    where "collect_entries (rss_entry_data ns) (children_matching ''item'' channel) = Inr es"
    using collect_entries_returns [of "rss_entry_data ns"] rss_entry_data_returns by blast
  ultimately show ?thesis
    using ch by (simp add: parse_rss_def)
qed

lemma find_channel_None:
  "\<forall>c\<in>set (children root). tag c \<noteq> ''channel'' \<Longrightarrow>
     find_elem root ''channel'' Map.empty = Inr None"
  by (simp add: find_elem_def findall_def xpath_tag_def children_matching_def tag_selects_def
      filter_empty_conv [THEN iffD2] split: list.splits)

lemma parse_root_entries:
  "parse_root root = Inr (Inr p) \<Longrightarrow> e \<in> set (entries p) \<Longrightarrow> has_content e"
  by (auto simp: parse_root_def Let_def split: if_splits sum.splits
      dest: parse_atom_entries parse_rss_entries)

lemma parse_feed_custom_root:
  "parse_feed_custom fromstring feed_content = Returns (Inr p) \<Longrightarrow>
     \<exists>s root. feed_content = Some s \<and> s \<noteq> [] \<and> fromstring (strip s) = Inr root \<and>
       parse_root root = Inr (Inr p)"
  by (auto simp: parse_feed_custom_def split: option.splits if_splits sum.splits)




subsection \<open>The lookup cache does not change what a lookup gives\<close>

lemma cache_ok_empty: "cache_ok []"
  by (simp add: cache_ok_def)

lemma agrees_return: "agrees (return_c v) (Inr v)"
  by (simp add: agrees_def return_c_def)

lemma agrees_lift: "agrees (lift_c r) r"
  by (simp add: agrees_def lift_c_def)

lemma agrees_bind:
  assumes "agrees m v" and "\<And>x. v = Inr x \<Longrightarrow> agrees (f x) (g x)"
  shows "agrees (bind_c m f) (case v of Inl e \<Rightarrow> Inl e | Inr x \<Rightarrow> g x)"
proof -
  have "fst (bind_c m f c) = (case v of Inl e \<Rightarrow> Inl e | Inr x \<Rightarrow> g x) \<and>
      cache_ok (snd (bind_c m f c))" if c: "cache_ok c" for c
  proof (cases "m c")
    case (Pair r c')
    with assms(1) c have r: "r = v" and c': "cache_ok c'"
      by (auto simp: agrees_def)
    show ?thesis
    proof (cases v)
      case (Inl e)
      with Pair r c' show ?thesis
        by (simp add: bind_c_def)
    next
      case (Inr x)
      from assms(2) [OF Inr] c' have "fst (f x c') = g x \<and> cache_ok (snd (f x c'))"
        by (simp add: agrees_def)
      with Pair r Inr show ?thesis
        by (simp add: bind_c_def)
    qed
  qed
  then show ?thesis
    by (simp add: agrees_def)
qed

lemma agrees_findall: "agrees (findall_c e path ns) (findall e path ns)"
proof -
  have "fst (findall_c e path ns c) = findall e path ns \<and> cache_ok (snd (findall_c e path ns c))"
    if c: "cache_ok c" for c
  proof (cases "map_of c (path, ns)")
    case (Some t)
    then have "((path, ns), t) \<in> set c"
      by (rule map_of_SomeD)
    with c have "xpath_tag ns path = Inr t"
      by (auto simp: cache_ok_def list_all_iff)
    with Some c show ?thesis
      by (simp add: findall_c_def findall_def)
  next
    case None
    then have fresh: "(path, ns) \<notin> fst ` set c"
      by (simp add: map_of_eq_None_iff)
    let ?c' = "if length c > 100 then [] else c"
    from c have c': "cache_ok ?c'"
      by (simp add: cache_ok_empty)
    from fresh have fresh': "(path, ns) \<notin> fst ` set ?c'"
      by simp
    show ?thesis
    proof (cases "xpath_tag ns path")
      case (Inl x)
      with None c' show ?thesis
        by (simp add: findall_c_def findall_def Let_def)
    next
      case (Inr t)
      from c' fresh' Inr have "cache_ok (((path, ns), t) # ?c')"
        by (simp add: cache_ok_def)
      with None Inr show ?thesis
        by (simp add: findall_c_def findall_def Let_def)
    qed
  qed
  then show ?thesis
    by (simp add: agrees_def)
qed

lemma agrees_find_elem: "agrees (find_elem_c e path ns) (find_elem e path ns)"
  unfolding find_elem_c_def find_elem_def
  by (rule agrees_bind) (rule agrees_findall, rule agrees_return)

lemma agrees_find_element_text:
  "agrees (find_element_text_c e path ns) (find_element_text e path ns)"
proof -
  have "find_element_text e path ns =
      (case find_elem e path ns of
         Inl x \<Rightarrow> Inl x
       | Inr element \<Rightarrow>
           Inr (case element of
                  None \<Rightarrow> None
                | Some el \<Rightarrow>
                    (case etext el of
                       None \<Rightarrow> None
                     | Some t \<Rightarrow> if t \<noteq> [] then Some (strip t) else None)))"
    by (simp add: find_element_text_def split: sum.splits option.splits)
  then show ?thesis
    unfolding find_element_text_c_def
    by (simp only:) (rule agrees_bind, rule agrees_find_elem, rule agrees_return)
qed

lemma agrees_atom_entry_data:
  "agrees (atom_entry_data_c ns item) (atom_entry_data ns item)"
  unfolding atom_entry_data_c_def atom_entry_data_def
  by (intro agrees_bind agrees_find_element_text agrees_findall agrees_return)
    (simp add: agrees_find_element_text agrees_return)

lemma agrees_rss_entry_data:
  "agrees (rss_entry_data_c ns item) (rss_entry_data ns item)"
  unfolding rss_entry_data_c_def rss_entry_data_def
  by (intro agrees_bind agrees_find_element_text agrees_return)

lemma agrees_collect_entries:
  assumes "\<And>item. agrees (fc item) (f item)"
  shows "agrees (collect_entries_c fc items) (collect_entries f items)"
proof -
  have "fst (collect_entries_c fc items c) = collect_entries f items \<and>
      cache_ok (snd (collect_entries_c fc items c))" if "cache_ok c" for c
    using that
  proof (induction items arbitrary: c)
    case Nil
    then show ?case by simp
  next
    case (Cons item items)
    obtain r c' where rc: "fc item c = (r, c')"
      by (cases "fc item c")
    with assms [of item] Cons.prems have r: "r = f item" and c': "cache_ok c'"
      by (auto simp: agrees_def)
    obtain r' c'' where rc': "collect_entries_c fc items c' = (r', c'')"
      by (cases "collect_entries_c fc items c'")
    with Cons.IH [OF c'] have "r' = collect_entries f items" and "cache_ok c''"
      by auto
    with rc r c' rc' show ?case
      by (auto split: sum.splits)
  qed
  then show ?thesis
    by (simp add: agrees_def)
qed

lemma agrees_parse_atom: "agrees (parse_atom_c ns root) (parse_atom ns root)"
  unfolding parse_atom_c_def parse_atom_def
  by (intro agrees_bind agrees_find_element_text agrees_findall agrees_return
      agrees_collect_entries agrees_atom_entry_data)

lemma agrees_parse_rss: "agrees (parse_rss_c ns root) (parse_rss ns root)"
proof -
  have "parse_rss ns root =
      (case find_elem root ''channel'' Map.empty of
         Inl x \<Rightarrow> Inl x
       | Inr found \<Rightarrow>
           (case found of
              None \<Rightarrow> Inr (Inl ChannelNotFound)
            | Some channel \<Rightarrow>
           (case find_element_text channel ''title'' ns of
              Inl x \<Rightarrow> Inl x
            | Inr t \<Rightarrow>
           (case find_element_text channel ''description'' ns of
              Inl x \<Rightarrow> Inl x
            | Inr d \<Rightarrow>
           (case find_element_text channel ''link'' ns of
              Inl x \<Rightarrow> Inl x
            | Inr l \<Rightarrow>
           (case findall channel ''item'' ns of
              Inl x \<Rightarrow> Inl x
            | Inr items \<Rightarrow>
           (case collect_entries (rss_entry_data ns) items of
              Inl x \<Rightarrow> Inl x
            | Inr es \<Rightarrow>
                Inr (Inr \<lparr>feed = \<lparr>title = t, link = l, description = d\<rparr>,
                          entries = es\<rparr>))))))))"
    by (simp add: parse_rss_def split: sum.splits option.splits)
  moreover have "agrees (parse_rss_c ns root) \<dots>"
    unfolding parse_rss_c_def
  proof (rule agrees_bind [OF agrees_lift])
    fix found
    show "agrees
        (case found of
           None \<Rightarrow> return_c (Inl ChannelNotFound)
         | Some channel \<Rightarrow>
             bind_c (find_element_text_c channel ''title'' ns) (\<lambda>t.
             bind_c (find_element_text_c channel ''description'' ns) (\<lambda>d.
             bind_c (find_element_text_c channel ''link'' ns) (\<lambda>l.
             bind_c (findall_c channel ''item'' ns) (\<lambda>items.
             bind_c (collect_entries_c (rss_entry_data_c ns) items) (\<lambda>es.
             return_c (Inr \<lparr>feed = \<lparr>title = t, link = l, description = d\<rparr>,
                            entries = es\<rparr>)))))))
        (case found of
           None \<Rightarrow> Inr (Inl ChannelNotFound)
         | Some channel \<Rightarrow>
        (case find_element_text channel ''title'' ns of
           Inl x \<Rightarrow> Inl x
         | Inr t \<Rightarrow>
        (case find_element_text channel ''description'' ns of
           Inl x \<Rightarrow> Inl x
         | Inr d \<Rightarrow>
        (case find_element_text channel ''link'' ns of
           Inl x \<Rightarrow> Inl x
         | Inr l \<Rightarrow>
        (case findall channel ''item'' ns of
           Inl x \<Rightarrow> Inl x
         | Inr items \<Rightarrow>
        (case collect_entries (rss_entry_data ns) items of
           Inl x \<Rightarrow> Inl x
         | Inr es \<Rightarrow>
             Inr (Inr \<lparr>feed = \<lparr>title = t, link = l, description = d\<rparr>,
                       entries = es\<rparr>)))))))"
    proof (cases found)
      case None
      then show ?thesis
        by (simp add: agrees_return)
    next
      case (Some channel)
      then show ?thesis
        by (simp only: option.case)
          (intro agrees_bind agrees_find_element_text agrees_findall agrees_return
            agrees_collect_entries agrees_rss_entry_data)
    qed
  qed
  ultimately show ?thesis
    by simp
qed

lemma agrees_parse_root: "agrees (parse_root_c root) (parse_root root)"
proof (cases "is_atom root")
  case True
  have "agrees (bind_c (parse_atom_c (namespaces_of root) root) (\<lambda>p. return_c (Inr p)))
      (case parse_atom (namespaces_of root) root of Inl x \<Rightarrow> Inl x | Inr p \<Rightarrow> Inr (Inr p))"
    by (intro agrees_bind agrees_parse_atom agrees_return)
  with True show ?thesis
    by (simp only: parse_root_c_def parse_root_def Let_def if_True)
next
  case False
  then show ?thesis
    by (cases "is_rss root")
      (simp_all only: parse_root_c_def parse_root_def Let_def if_True if_False
        agrees_parse_rss agrees_return)
qed

text \<open>A call from a world with such a cache returns what the function of the content
  gives, and leaves such a cache.\<close>

lemma call_parse_feed_custom_pure:
  assumes "cache_ok (path_cache w)"
  shows "fst (call_parse_feed_custom fromstring feed_content w) =
           parse_feed_custom fromstring feed_content \<and>
         cache_ok (path_cache (snd (call_parse_feed_custom fromstring feed_content w)))"
proof (cases feed_content)
  case None
  with assms show ?thesis
    by (simp add: call_parse_feed_custom_def parse_feed_custom_def)
next
  case (Some s)
  show ?thesis
  proof (cases "s = []")
    case True
    with Some assms show ?thesis
      by (simp add: call_parse_feed_custom_def parse_feed_custom_def)
  next
    case False
    show ?thesis
    proof (cases "fromstring (strip s)")
      case (Inl x)
      with Some False assms show ?thesis
        by (simp add: call_parse_feed_custom_def parse_feed_custom_def)
    next
      case (Inr root)
      obtain r c where rc: "parse_root_c root (path_cache w) = (r, c)"
        by (cases "parse_root_c root (path_cache w)")
      with agrees_parse_root [of root] assms have "r = parse_root root" and "cache_ok c"
        by (auto simp: agrees_def)
      with Some False Inr rc show ?thesis
        by (auto simp: call_parse_feed_custom_def parse_feed_custom_def split: sum.splits)
    qed
  qed
qed

lemma cache_ok_after_calls:
  "cache_ok (path_cache w) \<Longrightarrow> cache_ok (path_cache (after_calls fromstring contents w))"
proof (induction contents arbitrary: w)
  case Nil
  then show ?case
    by (simp add: after_calls_def)
next
  case (Cons feed_content contents)
  from Cons.prems
  have "cache_ok (path_cache (snd (call_parse_feed_custom fromstring feed_content w)))"
    using call_parse_feed_custom_pure by blast
  from Cons.IH [OF this] show ?case
    by (simp add: after_calls_def)
qed

lemmas lookup_defs =
  parse_root_c_def parse_rss_c_def parse_atom_c_def atom_entry_data_c_def
  rss_entry_data_c_def find_element_text_c_def find_elem_c_def findall_c_def
  bind_c_def return_c_def lift_c_def Let_def

subsection \<open>The example documents, evaluated\<close>

lemma strip_two_items_doc: "strip two_items_doc = two_items_doc"
  by (rule strip_unchanged) (simp_all add: two_items_doc_def isspace_def)

lemma parse_root_two_items: "parse_root two_items_tree = Inr (Inr two_items_parsed)"
  by (simp add: two_items_tree_def two_items_parsed_def parser_defs)

lemma parse_two_items:
  "parse_feed_custom (parser_for two_items_doc two_items_tree) (Some two_items_doc) =
     Returns (Inr two_items_parsed)"
proof -
  have "two_items_doc \<noteq> []"
    by (simp add: two_items_doc_def)
  then show ?thesis
    by (simp add: parse_feed_custom_def parser_for_def strip_two_items_doc parse_root_two_items)
qed


lemma strip_no_channel_doc: "strip no_channel_doc = no_channel_doc"
  by (rule strip_unchanged) (simp_all add: no_channel_doc_def isspace_def)

lemma strip_atom_feed_doc: "strip atom_feed_doc = atom_feed_doc"
  by (rule strip_unchanged) (simp_all add: atom_feed_doc_def isspace_def)

lemma parse_root_atom_feed: "parse_root atom_feed_tree = Inr (Inr atom_feed_parsed)"
  by (simp add: atom_feed_tree_def atom_feed_parsed_def parser_defs)

lemma parse_atom_feed:
  "parse_feed_custom (parser_for atom_feed_doc atom_feed_tree) (Some atom_feed_doc) =
     Returns (Inr atom_feed_parsed)"
proof -
  have "atom_feed_doc \<noteq> []"
    by (simp add: atom_feed_doc_def)
  then show ?thesis
    by (simp add: parse_feed_custom_def parser_for_def strip_atom_feed_doc parse_root_atom_feed)
qed



section \<open>The claims\<close>

text \<open>
  C1 (as the code has it). For a document that takes the Atom branch and is parsed with
  success, the feed link is selected among the \<open>link\<close> children of the root, and the
  entries of the result are the entries extracted from the \<open>entry\<close> children of the
  root, one for each and in document order, without those that have neither a title nor a
  link; the link of each is selected among the \<open>link\<close> children of its own \<open>entry\<close>
  element. The selected link is the \<open>href\<close> of the first candidate, in document order,
  whose \<open>rel\<close> is \<open>alternate\<close> or missing (or empty) and whose \<open>href\<close> is not empty;
  an \<open>alternate\<close> candidate has no priority over an earlier candidate without \<open>rel\<close>.
  Without such a candidate it is the \<open>href\<close> of the first candidate, and nothing when
  there is no candidate. In particular, for an entry with an \<open>alternate\<close> candidate that
  has an \<open>href\<close>, the link is the \<open>href\<close> of a candidate whose \<open>rel\<close> is
  \<open>alternate\<close> or missing, never one taken from a \<open>self\<close> candidate; and when all its
  candidates carry a \<open>rel\<close>, it is the \<open>href\<close> of the first \<open>alternate\<close> candidate
  that has one.
\<close>

theorem atom_link_selection:
  assumes "parse_feed_custom fromstring (Some feed_content) = Returns (Inr p)"
    and "fromstring (strip feed_content) = Inr root"
    and "is_atom root"
  shows "\<exists>uri ds. namespaces_of root ''atom'' = Some uri \<and>
      link (feed p) = first_preferred_href (children_matching (''{'' @ uri @ ''}link'') root) \<and>
      list_all2
        (\<lambda>item d.
           atom_entry_data (namespaces_of root) item = Inr d \<and>
           link d = first_preferred_href (children_matching (''{'' @ uri @ ''}link'') item) \<and>
           ((\<exists>a\<in>set (children_matching (''{'' @ uri @ ''}link'') item).
               get a ''rel'' = Some ''alternate'' \<and> truthy (get a ''href'')) \<longrightarrow>
            (\<exists>b\<in>set (children_matching (''{'' @ uri @ ''}link'') item).
               preferred b \<and> truthy (get b ''href'') \<and> link d = get b ''href'')) \<and>
           (\<forall>a. (\<forall>l\<in>set (children_matching (''{'' @ uri @ ''}link'') item).
                    truthy (get l ''rel'')) \<and>
                List.find (\<lambda>l. get l ''rel'' = Some ''alternate'' \<and> truthy (get l ''href''))
                  (children_matching (''{'' @ uri @ ''}link'') item) = Some a
                \<longrightarrow> link d = get a ''href''))
        (children_matching (''{'' @ uri @ ''}entry'') root) ds \<and>
      entries p = filter has_content ds"
proof -
  let ?ns = "namespaces_of root"
  from assms(1,2) have "parse_root root = Inr (Inr p)"
    by (auto simp: parse_feed_custom_def split: if_splits sum.splits)
  with assms(3) have atom: "parse_atom ?ns root = Inr p"
    by (auto simp: parse_root_def Let_def split: sum.splits)
  then obtain uri where uri: "?ns ''atom'' = Some uri"
    using parse_atom_no_prefix [of ?ns root]
    by (cases "?ns ''atom''") auto
  let ?links = "children_matching (''{'' @ uri @ ''}link'')"
  let ?items = "children_matching (''{'' @ uri @ ''}entry'') root"
  from parse_atom_links [OF uri atom]
  have feed_link: "link (feed p) = first_preferred_href (?links root)"
    by (simp add: primary_link_eq)
  from atom uri have "collect_entries (atom_entry_data ?ns) ?items = Inr (entries p)"
    using findall_atom [of ?ns uri root "''link''"] findall_atom [of ?ns uri root "''entry''"]
    by (auto simp: parse_atom_def split: sum.splits)
  from collect_entries_filter [OF this] obtain ds
    where ds: "list_all2 (\<lambda>item d. atom_entry_data ?ns item = Inr d) ?items ds"
      and es: "entries p = filter has_content ds"
    by blast
  have each: "atom_entry_data ?ns item = Inr d \<and>
      link d = first_preferred_href (?links item) \<and>
      ((\<exists>a\<in>set (?links item). get a ''rel'' = Some ''alternate'' \<and> truthy (get a ''href'')) \<longrightarrow>
       (\<exists>b\<in>set (?links item). preferred b \<and> truthy (get b ''href'') \<and>
          link d = get b ''href'')) \<and>
      (\<forall>a. (\<forall>l\<in>set (?links item). truthy (get l ''rel'')) \<and>
           List.find (\<lambda>l. get l ''rel'' = Some ''alternate'' \<and> truthy (get l ''href''))
             (?links item) = Some a
           \<longrightarrow> link d = get a ''href'')"
    if d: "atom_entry_data ?ns item = Inr d" for item d
  proof -
    from atom_entry_data_link [OF uri d]
    have l: "link d = first_preferred_href (?links item)"
      by (simp add: primary_link_eq)
    have first: "link d = get a ''href''"
      if "\<forall>l\<in>set (?links item). truthy (get l ''rel'')"
        and "List.find (\<lambda>l. get l ''rel'' = Some ''alternate'' \<and> truthy (get l ''href''))
               (?links item) = Some a" for a
      using first_preferred_href_alternate [OF that] l by simp
    have some: "\<exists>b\<in>set (?links item). preferred b \<and> truthy (get b ''href'') \<and>
        link d = get b ''href''"
      if "\<exists>a\<in>set (?links item). get a ''rel'' = Some ''alternate'' \<and> truthy (get a ''href'')"
    proof -
      from that obtain a where "a \<in> set (?links item)" "preferred a" "truthy (get a ''href'')"
        by (auto simp: preferred_def)
      from first_preferred_href_preferred [OF this] l show ?thesis
        by simp
    qed
    from d l first some show ?thesis
      by blast
  qed
  from ds have "list_all2
      (\<lambda>item d.
         atom_entry_data ?ns item = Inr d \<and>
         link d = first_preferred_href (?links item) \<and>
         ((\<exists>a\<in>set (?links item). get a ''rel'' = Some ''alternate'' \<and> truthy (get a ''href'')) \<longrightarrow>
          (\<exists>b\<in>set (?links item). preferred b \<and> truthy (get b ''href'') \<and>
             link d = get b ''href'')) \<and>
         (\<forall>a. (\<forall>l\<in>set (?links item). truthy (get l ''rel'')) \<and>
              List.find (\<lambda>l. get l ''rel'' = Some ''alternate'' \<and> truthy (get l ''href''))
                (?links item) = Some a
              \<longrightarrow> link d = get a ''href''))
      ?items ds"
    by (rule list_all2_mono) (rule each)
  with uri feed_link es show ?thesis
    by blast
qed

theorem atom_link_selection_witness:
  "parse_feed_custom (parser_for atom_feed_doc atom_feed_tree) (Some atom_feed_doc) =
     Returns (Inr atom_feed_parsed) \<and>
   parser_for atom_feed_doc atom_feed_tree (strip atom_feed_doc) = Inr atom_feed_tree \<and>
   is_atom atom_feed_tree \<and>
   (\<exists>uri. namespaces_of atom_feed_tree ''atom'' = Some uri \<and>
      link (feed atom_feed_parsed) =
        first_preferred_href (children_matching (''{'' @ uri @ ''}link'') atom_feed_tree)) \<and>
   map link (entries atom_feed_parsed) = [Some ''http://x/a'']"
proof -
  have h1: "parse_feed_custom (parser_for atom_feed_doc atom_feed_tree) (Some atom_feed_doc) =
      Returns (Inr atom_feed_parsed)"
    by (rule parse_atom_feed)
  have h2: "parser_for atom_feed_doc atom_feed_tree (strip atom_feed_doc) = Inr atom_feed_tree"
    by (simp add: strip_atom_feed_doc parser_for_def)
  have h3: "is_atom atom_feed_tree"
    by (simp add: atom_feed_tree_def is_atom_def namespaces_of_def)
  from atom_link_selection
      [where fromstring = "parser_for atom_feed_doc atom_feed_tree"
         and feed_content = atom_feed_doc and root = atom_feed_tree, OF h1 h2 h3]
  have "\<exists>uri. namespaces_of atom_feed_tree ''atom'' = Some uri \<and>
      link (feed atom_feed_parsed) =
        first_preferred_href (children_matching (''{'' @ uri @ ''}link'') atom_feed_tree)"
    by blast
  with h1 h2 h3 show ?thesis
    by (simp add: atom_feed_parsed_def)
qed

text \<open>
  Against C1 as it is written: in an entry whose first link has no \<open>rel\<close> and whose
  second link is the \<open>alternate\<close> one, the three tiers of the specification select the
  second link, and the parser returns the first.
\<close>

theorem alternate_priority_counterexample:
  "parse_feed_custom (parser_for typeless_first_doc typeless_first_tree)
     (Some typeless_first_doc) =
     Returns (Inr \<lparr>feed = \<lparr>title = None, link = None, description = None\<rparr>,
       entries = [\<lparr>title = Some ''T'', link = Some ''http://x/p'', description = None\<rparr>]\<rparr>) \<and>
   spec_three_tier_href typeless_first_links = Some ''http://x/a'' \<and>
   primary_link typeless_first_links = Some ''http://x/p''"
proof -
  have "typeless_first_doc \<noteq> []"
    by (simp add: typeless_first_doc_def)
  moreover have "strip typeless_first_doc = typeless_first_doc"
    by (rule strip_unchanged) (simp_all add: typeless_first_doc_def isspace_def)
  moreover have "parse_root typeless_first_tree =
      Inr (Inr \<lparr>feed = \<lparr>title = None, link = None, description = None\<rparr>,
        entries = [\<lparr>title = Some ''T'', link = Some ''http://x/p'', description = None\<rparr>]\<rparr>)"
    by (simp add: typeless_first_tree_def typeless_first_links_def parser_defs)
  moreover have "spec_three_tier_href typeless_first_links = Some ''http://x/a''"
    by (simp add: spec_three_tier_href_def typeless_first_links_def get_def)
  moreover have "primary_link typeless_first_links = Some ''http://x/p''"
    by (simp add: primary_link_def typeless_first_links_def get_def truthy_def)
  ultimately show ?thesis
    by (simp add: parse_feed_custom_def parser_for_def)
qed

text \<open>
  C2 (as the code has it). The dialect follows from the root tag alone. The Atom branch
  is taken exactly when the root tag carries a namespace, whatever its URI, or ends in
  \<open>feed\<close>; the result is then the Atom extraction, or the unexpected-error failure when a
  lookup raises. Otherwise, a root tag that ends in \<open>rss\<close> takes the RSS branch, which
  returns data or the missing-channel failure. The unknown-feed-type failure is returned
  exactly when the root tag carries no namespace and ends in neither \<open>feed\<close> nor \<open>rss\<close>.
\<close>

theorem dialect_from_root_tag:
  assumes "feed_content \<noteq> []" and "fromstring (strip feed_content) = Inr root"
  shows "(is_atom root \<longleftrightarrow> CHR ''}'' \<in> set (tag root) \<or> endswith (tag root) ''feed'') \<and>
    (is_atom root \<longrightarrow>
       parse_feed_custom fromstring (Some feed_content) =
         (case parse_atom (namespaces_of root) root of
            Inl x \<Rightarrow> Returns (Inl UnexpectedError)
          | Inr p \<Rightarrow> Returns (Inr p))) \<and>
    (\<not> is_atom root \<and> endswith (tag root) ''rss'' \<longrightarrow>
       (\<exists>r. parse_rss Map.empty root = Inr r \<and> r \<noteq> Inl UnknownFeedType \<and>
            parse_feed_custom fromstring (Some feed_content) = Returns r)) \<and>
    (parse_feed_custom fromstring (Some feed_content) = Returns (Inl UnknownFeedType) \<longleftrightarrow>
       \<not> is_atom root \<and> \<not> endswith (tag root) ''rss'')"
proof -
  have detect: "is_atom root \<longleftrightarrow> CHR ''}'' \<in> set (tag root) \<or> endswith (tag root) ''feed''"
    by (simp add: is_atom_def namespaces_of_def)
  have body: "parse_feed_custom fromstring (Some feed_content) =
      (case parse_root root of
         Inr r \<Rightarrow> Returns r
       | Inl x \<Rightarrow>
           if isinstance x ParseErrorClass then Returns (Inl XmlParseFailed)
           else Returns (Inl UnexpectedError))"
    using assms by (simp add: parse_feed_custom_def isinstance_Exception split: sum.splits)
  have atom: "parse_feed_custom fromstring (Some feed_content) =
      (case parse_atom (namespaces_of root) root of
         Inl x \<Rightarrow> Returns (Inl UnexpectedError)
       | Inr p \<Rightarrow> Returns (Inr p))"
    if "is_atom root"
    using that body
    by (auto simp: parse_root_def split: sum.splits dest: parse_atom_raises)
  have rss: "\<exists>r. parse_rss Map.empty root = Inr r \<and> r \<noteq> Inl UnknownFeedType \<and>
      parse_feed_custom fromstring (Some feed_content) = Returns r"
    if "\<not> is_atom root" and "endswith (tag root) ''rss''"
  proof -
    from that(1) have ns: "namespaces_of root = Map.empty"
      by (auto simp: is_atom_def namespaces_of_def)
    obtain r where r: "parse_rss Map.empty root = Inr r" "r \<noteq> Inl UnknownFeedType"
      using parse_rss_returns [of Map.empty root] by auto
    with that ns body have "parse_feed_custom fromstring (Some feed_content) = Returns r"
      by (simp add: parse_root_def is_rss_def)
    with r show ?thesis by blast
  qed
  have unknown: "parse_feed_custom fromstring (Some feed_content) = Returns (Inl UnknownFeedType)"
    if "\<not> is_atom root" and "\<not> endswith (tag root) ''rss''"
    using that body by (simp add: parse_root_def is_rss_def)
  have known: "parse_feed_custom fromstring (Some feed_content) \<noteq> Returns (Inl UnknownFeedType)"
    if "is_atom root \<or> endswith (tag root) ''rss''"
  proof (cases "is_atom root")
    case True
    from atom [OF True] show ?thesis
      by (auto split: sum.splits)
  next
    case False
    with that rss show ?thesis
      by auto
  qed
  from detect atom rss unknown known show ?thesis
    by blast
qed

theorem dialect_from_root_tag_witness:
  "unknown_doc \<noteq> [] \<and>
   parser_for unknown_doc unknown_tree (strip unknown_doc) = Inr unknown_tree \<and>
   \<not> is_atom unknown_tree \<and> \<not> endswith (tag unknown_tree) ''rss'' \<and>
   parse_feed_custom (parser_for unknown_doc unknown_tree) (Some unknown_doc) =
     Returns (Inl UnknownFeedType)"
proof -
  have h1: "unknown_doc \<noteq> []"
    by (simp add: unknown_doc_def)
  have "strip unknown_doc = unknown_doc"
    by (rule strip_unchanged) (simp_all add: unknown_doc_def isspace_def)
  then have h2: "parser_for unknown_doc unknown_tree (strip unknown_doc) = Inr unknown_tree"
    by (simp add: parser_for_def)
  have a: "\<not> is_atom unknown_tree"
    by (simp add: unknown_tree_def is_atom_def namespaces_of_def endswith_def)
  have b: "\<not> endswith (tag unknown_tree) ''rss''"
    by (simp add: unknown_tree_def endswith_def)
  from dialect_from_root_tag
      [where fromstring = "parser_for unknown_doc unknown_tree"
         and feed_content = unknown_doc and root = unknown_tree, OF h1 h2] a b
  have "parse_feed_custom (parser_for unknown_doc unknown_tree) (Some unknown_doc) =
      Returns (Inl UnknownFeedType)"
    by blast
  with h1 h2 a b show ?thesis
    by blast
qed

text \<open>
  Against C2 as it is written: a root named \<open>rss\<close> in a namespace that is not the Atom
  one is not Atom by the specification's test, yet the parser takes the Atom branch and
  returns an empty feed, without the channel's title.
\<close>

theorem foreign_namespace_counterexample:
  "\<not> spec_is_atom foreign_rss_tree \<and> is_atom foreign_rss_tree \<and>
   parse_feed_custom (parser_for foreign_rss_doc foreign_rss_tree) (Some foreign_rss_doc) =
     Returns (Inr \<lparr>feed = \<lparr>title = None, link = None, description = None\<rparr>, entries = []\<rparr>)"
proof -
  have "foreign_rss_doc \<noteq> []"
    by (simp add: foreign_rss_doc_def)
  moreover have "strip foreign_rss_doc = foreign_rss_doc"
    by (rule strip_unchanged) (simp_all add: foreign_rss_doc_def isspace_def)
  moreover have "parse_root foreign_rss_tree =
      Inr (Inr \<lparr>feed = \<lparr>title = None, link = None, description = None\<rparr>, entries = []\<rparr>)"
    by (simp add: foreign_rss_tree_def parser_defs)
  moreover have "\<not> spec_is_atom foreign_rss_tree"
    by (simp add: spec_is_atom_def foreign_rss_tree_def namespaces_of_def endswith_def
        atom_namespace_uri_def)
  moreover have "is_atom foreign_rss_tree"
    by (simp add: is_atom_def foreign_rss_tree_def namespaces_of_def)
  ultimately show ?thesis
    by (simp add: parse_feed_custom_def parser_for_def)
qed

text \<open>
  C3. The Atom example of the specification, \<open>plain_feed_doc\<close>, whose root declares no
  namespace: the root tag ends in \<open>feed\<close>, so the Atom branch is taken with an empty
  namespace map; its first lookup, of \<open>atom:title\<close>, raises \<open>SyntaxError\<close> (the prefix
  is not in the map), the handler of \<open>Exception\<close> catches it, and the parser returns
  \<open>None\<close>. No entry is extracted and the link \<open>http://x/a\<close> is not returned.
\<close>

theorem plain_feed_unexpected_error:
  "namespaces_of plain_feed_tree ''atom'' = None \<and>
   endswith (tag plain_feed_tree) ''feed'' \<and>
   parse_root plain_feed_tree = Inl SyntaxError \<and>
   parse_feed_custom (parser_for plain_feed_doc plain_feed_tree) (Some plain_feed_doc) =
     Returns (Inl UnexpectedError)"
proof -
  have "plain_feed_doc \<noteq> []"
    by (simp add: plain_feed_doc_def)
  moreover have "strip plain_feed_doc = plain_feed_doc"
    by (rule strip_unchanged) (simp_all add: plain_feed_doc_def isspace_def)
  moreover have "parse_root plain_feed_tree = Inl SyntaxError"
    by (simp add: plain_feed_tree_def parser_defs)
  moreover have "namespaces_of plain_feed_tree ''atom'' = None"
    by (simp add: plain_feed_tree_def namespaces_of_def)
  moreover have "endswith (tag plain_feed_tree) ''feed''"
    by (simp add: plain_feed_tree_def endswith_def)
  ultimately show ?thesis
    by (simp add: parse_feed_custom_def parser_for_def)
qed

text \<open>
  C4. A title whose text is whitespace only: \<open>find_element_text\<close> tests the text before
  it trims it, so the three spaces pass the test and the trimmed text, the empty string,
  is returned; the feed title of \<open>blank_title_doc\<close> is \<open>Some ''''\<close>, not \<open>None\<close>.
\<close>

theorem blank_title_is_empty_string:
  "find_element_text (Element ''channel'' [] None [Element ''title'' [] (Some ''   '') []])
     ''title'' Map.empty = Inr (Some '''') \<and>
   parse_feed_custom (parser_for blank_title_doc blank_title_tree) (Some blank_title_doc) =
     Returns (Inr \<lparr>feed = \<lparr>title = Some '''', link = None, description = None\<rparr>,
       entries = [\<lparr>title = Some ''A'', link = Some ''http://x/1'', description = None\<rparr>]\<rparr>)"
proof -
  have "blank_title_doc \<noteq> []"
    by (simp add: blank_title_doc_def)
  moreover have "strip blank_title_doc = blank_title_doc"
    by (rule strip_unchanged) (simp_all add: blank_title_doc_def isspace_def)
  moreover have "parse_root blank_title_tree =
      Inr (Inr \<lparr>feed = \<lparr>title = Some '''', link = None, description = None\<rparr>,
        entries = [\<lparr>title = Some ''A'', link = Some ''http://x/1'', description = None\<rparr>]\<rparr>)"
    by (simp add: blank_title_tree_def parser_defs)
  moreover have "find_element_text
      (Element ''channel'' [] None [Element ''title'' [] (Some ''   '') []])
      ''title'' Map.empty = Inr (Some '''')"
    by (simp add: parser_defs)
  ultimately show ?thesis
    by (simp add: parse_feed_custom_def parser_for_def)
qed

text \<open>
  C5. After a successful parse, Atom or RSS, every entry of the result has a non-empty
  title or a non-empty link; an entry with neither is not in the result, whatever its
  description.
\<close>

theorem entries_have_title_or_link:
  assumes "parse_feed_custom fromstring feed_content = Returns (Inr p)"
  shows "(\<forall>e\<in>set (entries p). truthy (title e) \<or> truthy (link e)) \<and>
         (\<forall>d. \<not> truthy (title d) \<and> \<not> truthy (link d) \<longrightarrow> d \<notin> set (entries p))"
proof -
  from assms obtain root where "parse_root root = Inr (Inr p)"
    using parse_feed_custom_root by blast
  then have "\<forall>e\<in>set (entries p). has_content e"
    using parse_root_entries by blast
  then show ?thesis
    by (auto simp: has_content_def)
qed

theorem entries_have_title_or_link_witness:
  "parse_feed_custom (parser_for two_items_doc two_items_tree) (Some two_items_doc) =
     Returns (Inr two_items_parsed) \<and>
   entries two_items_parsed =
     [\<lparr>title = Some ''A'', link = Some ''http://x/1'', description = None\<rparr>] \<and>
   \<lparr>title = None, link = None, description = Some ''d''\<rparr> \<notin> set (entries two_items_parsed)"
proof -
  note h = parse_two_items
  from entries_have_title_or_link [OF h]
  have "\<forall>d. \<not> truthy (title d) \<and> \<not> truthy (link d) \<longrightarrow> d \<notin> set (entries two_items_parsed)"
    by blast
  then have "\<lparr>title = None, link = None, description = Some ''d''\<rparr>
      \<notin> set (entries two_items_parsed)"
    by (simp add: truthy_def)
  with h show ?thesis
    by (simp add: two_items_parsed_def)
qed




text \<open>
  C7. A well-formed document that takes the RSS branch and whose root has no child
  named \<open>channel\<close> makes the parser return \<open>None\<close> with the message that the channel
  is missing, and no data.
\<close>

theorem rss_without_channel:
  assumes "feed_content \<noteq> []"
    and "fromstring (strip feed_content) = Inr root"
    and "\<not> is_atom root" and "is_rss root"
    and "\<forall>c\<in>set (children root). tag c \<noteq> ''channel''"
  shows "parse_feed_custom fromstring (Some feed_content) = Returns (Inl ChannelNotFound)"
  using assms find_channel_None [of root]
  by (simp add: parse_feed_custom_def parse_root_def parse_rss_def)

theorem rss_without_channel_witness:
  "no_channel_doc \<noteq> [] \<and>
   parser_for no_channel_doc no_channel_tree (strip no_channel_doc) = Inr no_channel_tree \<and>
   \<not> is_atom no_channel_tree \<and> is_rss no_channel_tree \<and>
   list_all (\<lambda>c. tag c \<noteq> ''channel'') (children no_channel_tree) \<and>
   parse_feed_custom (parser_for no_channel_doc no_channel_tree) (Some no_channel_doc) =
     Returns (Inl ChannelNotFound)"
proof -
  have h1: "no_channel_doc \<noteq> []"
    by (simp add: no_channel_doc_def)
  have h2: "parser_for no_channel_doc no_channel_tree (strip no_channel_doc) = Inr no_channel_tree"
    by (simp add: strip_no_channel_doc parser_for_def)
  have h3: "\<not> is_atom no_channel_tree"
    by (simp add: no_channel_tree_def is_atom_def namespaces_of_def endswith_def)
  have h4: "is_rss no_channel_tree"
    by (simp add: no_channel_tree_def is_rss_def endswith_def)
  have h5: "\<forall>c\<in>set (children no_channel_tree). tag c \<noteq> ''channel''"
    by (simp add: no_channel_tree_def)
  from rss_without_channel
      [where fromstring = "parser_for no_channel_doc no_channel_tree"
         and feed_content = no_channel_doc and root = no_channel_tree, OF h1 h2 h3 h4 h5]
    h1 h2 h3 h4 h5
  show ?thesis
    by (simp add: list_all_iff)
qed

text \<open>
  C8 (as the code has it). For a response with a status from 400 to 599 the fetcher
  returns \<open>None\<close>, with the message of the \<open>HTTPError\<close> that carries the status; for a
  response with any other status, inside or outside 200 to 299, it returns the body,
  decoded as UTF-8 or else as \<open>response.text\<close>.
\<close>

theorem fetch_by_status:
  assumes "requests_get url = Inr r"
  shows "(400 \<le> status_code r \<and> status_code r < 600 \<longrightarrow>
            fetch_feed_content requests_get decode url =
              Inl (ErrorFetching (HTTPError (status_code r)))) \<and>
         (\<not> (400 \<le> status_code r \<and> status_code r < 600) \<longrightarrow>
            fetch_feed_content requests_get decode url =
              Inr (case decode (content r) of Some s \<Rightarrow> s | None \<Rightarrow> resp_text r))"
  using assms by (simp add: fetch_feed_content_def raise_for_status_def)

theorem fetch_by_status_witness:
  "status_code not_found = 404 \<and>
   fetch_feed_content (\<lambda>url. Inr not_found) Some ''http://x/feed'' =
     Inl (ErrorFetching (HTTPError 404)) \<and>
   fetch_feed_content (\<lambda>url. Inr multiple_choices) Some ''http://x/feed'' = Inr ''<rss/>''"
proof -
  have s: "status_code not_found = 404" "status_code multiple_choices = 300"
    "content multiple_choices = ''<rss/>''"
    by (simp_all add: not_found_def multiple_choices_def)
  from fetch_by_status
      [where requests_get = "\<lambda>url. Inr not_found" and r = not_found
         and url = "''http://x/feed''" and decode = Some, OF refl]
    fetch_by_status
      [where requests_get = "\<lambda>url. Inr multiple_choices" and r = multiple_choices
         and url = "''http://x/feed''" and decode = Some, OF refl]
    s
  show ?thesis
    by simp
qed

text \<open>
  Against C8 as it is written: a response with status 300, outside 200 to 299, and the
  fetcher returns its body.
\<close>

theorem status_300_counterexample:
  "\<not> (200 \<le> status_code multiple_choices \<and> status_code multiple_choices < 300) \<and>
   fetch_feed_content (\<lambda>url. Inr multiple_choices) Some ''http://x/feed'' = Inr ''<rss/>''"
  by (simp add: fetch_feed_content_def raise_for_status_def multiple_choices_def)

text \<open>
  C9. A call of the parser returns the same value from every state it can run in: what
  it returns is \<open>parse_feed_custom\<close> of the content, whatever the lookup cache holds and
  whatever was printed before. So two calls on the same content return equal results
  (equal data, or the same failure): the second in the state the first has left, after
  a call on any other content, or after any sequence of calls in a fresh process.
\<close>

theorem parse_feed_custom_deterministic:
  assumes "cache_ok (path_cache w)" and "cache_ok (path_cache w')"
  shows "fst (call_parse_feed_custom fromstring feed_content w) =
           parse_feed_custom fromstring feed_content \<and>
         fst (call_parse_feed_custom fromstring feed_content w') =
           fst (call_parse_feed_custom fromstring feed_content w) \<and>
         fst (call_parse_feed_custom fromstring feed_content
               (snd (call_parse_feed_custom fromstring feed_content w))) =
           fst (call_parse_feed_custom fromstring feed_content w) \<and>
         fst (call_parse_feed_custom fromstring feed_content
               (snd (call_parse_feed_custom fromstring other_content w))) =
           fst (call_parse_feed_custom fromstring feed_content w) \<and>
         fst (call_parse_feed_custom fromstring feed_content
               (after_calls fromstring earlier initial_world)) =
           parse_feed_custom fromstring feed_content"
proof -
  let ?pure = "parse_feed_custom fromstring feed_content"
  have a: "fst (call_parse_feed_custom fromstring feed_content v) = ?pure"
    if "cache_ok (path_cache v)" for v
    using call_parse_feed_custom_pure [OF that] by blast
  have b: "cache_ok (path_cache (snd (call_parse_feed_custom fromstring any_content w)))"
    for any_content
    using call_parse_feed_custom_pure [OF assms(1)] by blast
  have "cache_ok (path_cache initial_world)"
    by (simp add: initial_world_def cache_ok_empty)
  then have c: "cache_ok (path_cache (after_calls fromstring earlier initial_world))"
    by (rule cache_ok_after_calls)
  from a [OF assms(1)] a [OF assms(2)] a [OF b] a [OF c] show ?thesis
    by (simp only: simp_thms)
qed

theorem parse_feed_custom_deterministic_witness:
  "cache_ok (path_cache initial_world) \<and>
   fst (call_parse_feed_custom (parser_for two_items_doc two_items_tree) (Some two_items_doc)
         initial_world) = Returns (Inr two_items_parsed) \<and>
   path_cache (snd (call_parse_feed_custom (parser_for two_items_doc two_items_tree)
         (Some two_items_doc) initial_world)) =
     [((''item'', Map.empty), ''item''), ((''link'', Map.empty), ''link''),
      ((''description'', Map.empty), ''description''), ((''title'', Map.empty), ''title'')] \<and>
   fst (call_parse_feed_custom (parser_for two_items_doc two_items_tree) (Some two_items_doc)
         (snd (call_parse_feed_custom (parser_for two_items_doc two_items_tree)
            (Some two_items_doc) initial_world))) = Returns (Inr two_items_parsed)"
proof -
  have h: "cache_ok (path_cache initial_world)"
    by (simp add: initial_world_def cache_ok_empty)
  have c: "path_cache (snd (call_parse_feed_custom (parser_for two_items_doc two_items_tree)
         (Some two_items_doc) initial_world)) =
     [((''item'', Map.empty), ''item''), ((''link'', Map.empty), ''link''),
      ((''description'', Map.empty), ''description''), ((''title'', Map.empty), ''title'')]"
  proof -
    have "two_items_doc \<noteq> []"
      by (simp add: two_items_doc_def)
    moreover have "parse_root_c two_items_tree [] =
        (Inr (Inr two_items_parsed),
         [((''item'', Map.empty), ''item''), ((''link'', Map.empty), ''link''),
          ((''description'', Map.empty), ''description''), ((''title'', Map.empty), ''title'')])"
      by (simp add: two_items_tree_def two_items_parsed_def lookup_defs parser_defs
          cong: prod.case_cong_weak)
    ultimately show ?thesis
      by (simp add: call_parse_feed_custom_def parser_for_def strip_two_items_doc
          initial_world_def)
  qed
  from parse_feed_custom_deterministic
      [where w = initial_world and w' = initial_world
         and fromstring = "parser_for two_items_doc two_items_tree"
         and feed_content = "Some two_items_doc", OF h h]
    parse_two_items h c
  show ?thesis
    by simp
qed

text \<open>
  C10. The parser returns for every input: for \<open>None\<close> and for the empty content it
  returns \<open>None\<close> at once, and every exception raised in its body (by the XML parser
  or by a lookup) is caught by one of its two handlers and turned into \<open>None\<close>; no
  exception leaves the call.
\<close>

theorem parse_feed_custom_never_raises:
  "(\<exists>r. parse_feed_custom fromstring feed_content = Returns r) \<and>
   parse_feed_custom fromstring feed_content \<noteq> Propagates x \<and>
   parse_feed_custom fromstring None = Returns (Inl NoContent) \<and>
   parse_feed_custom fromstring (Some []) = Returns (Inl NoContent)"
  by (auto simp: parse_feed_custom_def isinstance_Exception split: option.splits sum.splits)

end
